theory Spec2Isabelle
  imports Main
begin

section \<open>Python values and their textual form\<close>

text \<open>
  The notebook handles two kinds of data: the decoded reply of the language model (whatever
  \<^verbatim>\<open>json.loads\<close> returns) and the parsed page. This section models the first.

  A Python string is a list of code points; \<^typ>\<open>char\<close> holds the code points below 256,
  which is the range modelled here. A decoded JSON object is a dictionary: an association
  list in insertion order whose keys are pairwise distinct. A float is kept as the text
  \<^verbatim>\<open>repr\<close> gives for it, the only thing the notebook ever does with one.
\<close>

datatype json =
    JNull
  | JBool bool
  | JInt int
  | JFloat string
  | JStr string
  | JList "json list"
  | JObj "(string \<times> json) list"

text \<open>The exceptions the modelled code can raise; \<open>External\<close> is one raised inside a library
  call (HTTP, HTML parsing, the chat client), with its message.\<close>

datatype error = KeyError string | TypeError | External string

definition and_then :: "error + 'a \<Rightarrow> ('a \<Rightarrow> error + 'b) \<Rightarrow> error + 'b" where
  "and_then m f = (case m of Inl e \<Rightarrow> Inl e | Inr x \<Rightarrow> f x)"

fun join :: "string \<Rightarrow> string list \<Rightarrow> string" where
  "join sep [] = []"
| "join sep [x] = x"
| "join sep (x # y # ys) = x @ sep @ join sep (y # ys)"

fun starts_with :: "string \<Rightarrow> string \<Rightarrow> bool" where
  "starts_with [] s = True"
| "starts_with (p # ps) [] = False"
| "starts_with (p # ps) (c # cs) = (p = c \<and> starts_with ps cs)"

text \<open>\<^verbatim>\<open>sub in s\<close> on two strings.\<close>

fun is_substring :: "string \<Rightarrow> string \<Rightarrow> bool" where
  "is_substring sub [] = (sub = [])"
| "is_substring sub (c # cs) = (starts_with sub (c # cs) \<or> is_substring sub cs)"

subsection \<open>\<^verbatim>\<open>str\<close> and \<^verbatim>\<open>repr\<close>\<close>

definition digit_char :: "nat \<Rightarrow> char" where
  "digit_char d =
     (if d = 0 then CHR ''0'' else if d = 1 then CHR ''1'' else if d = 2 then CHR ''2''
      else if d = 3 then CHR ''3'' else if d = 4 then CHR ''4'' else if d = 5 then CHR ''5''
      else if d = 6 then CHR ''6'' else if d = 7 then CHR ''7'' else if d = 8 then CHR ''8''
      else if d = 9 then CHR ''9'' else if d = 10 then CHR ''a'' else if d = 11 then CHR ''b''
      else if d = 12 then CHR ''c'' else if d = 13 then CHR ''d'' else if d = 14 then CHR ''e''
      else CHR ''f'')"

fun nat_dec :: "nat \<Rightarrow> string" where
  "nat_dec n = (if n < 10 then [digit_char n] else nat_dec (n div 10) @ [digit_char (n mod 10)])"

definition int_dec :: "int \<Rightarrow> string" where
  "int_dec i = (if i < 0 then ''-'' @ nat_dec (nat (- i)) else nat_dec (nat i))"

text \<open>\<^verbatim>\<open>repr\<close> of a string: single quotes unless the string has a single quote and no
  double quote; the quote and the backslash escaped, tab, newline and return by letter, every
  other unprintable code point as \<^verbatim>\<open>\xhh\<close>.\<close>

definition printable :: "char \<Rightarrow> bool" where
  "printable c = (let n = of_char c :: nat in
     (32 \<le> n \<and> n < 127) \<or> (161 \<le> n \<and> n \<noteq> 173))"

definition escape_char :: "char \<Rightarrow> char \<Rightarrow> string" where
  "escape_char quote c =
     (if c = quote \<or> c = CHR 0x5C then [CHR 0x5C, c]
      else if c = CHR 0x09 then [CHR 0x5C, CHR ''t'']
      else if c = CHR 0x0A then [CHR 0x5C, CHR ''n'']
      else if c = CHR 0x0D then [CHR 0x5C, CHR ''r'']
      else if printable c then [c]
      else [CHR 0x5C, CHR ''x'', digit_char (of_char c div 16), digit_char (of_char c mod 16)])"

definition repr_str :: "string \<Rightarrow> string" where
  "repr_str s =
     (let quote = (if CHR 0x27 \<in> set s \<and> CHR 0x22 \<notin> set s then CHR 0x22 else CHR 0x27)
      in [quote] @ concat (map (escape_char quote) s) @ [quote])"

fun py_repr :: "json \<Rightarrow> string"
  and repr_items :: "json list \<Rightarrow> string list"
  and repr_pairs :: "(string \<times> json) list \<Rightarrow> string list" where
  "py_repr JNull = ''None''"
| "py_repr (JBool b) = (if b then ''True'' else ''False'')"
| "py_repr (JInt i) = int_dec i"
| "py_repr (JFloat r) = r"
| "py_repr (JStr s) = repr_str s"
| "py_repr (JList xs) = ''['' @ join '', '' (repr_items xs) @ '']''"
| "py_repr (JObj kvs) = ''{'' @ join '', '' (repr_pairs kvs) @ ''}''"
| "repr_items [] = []"
| "repr_items (x # xs) = py_repr x # repr_items xs"
| "repr_pairs [] = []"
| "repr_pairs ((k, v) # kvs) = (repr_str k @ '': '' @ py_repr v) # repr_pairs kvs"

text \<open>\<^verbatim>\<open>str(v)\<close>, which is what an f-string field \<^verbatim>\<open>{v}\<close> inserts.\<close>

fun py_str :: "json \<Rightarrow> string" where
  "py_str (JStr s) = s"
| "py_str v = py_repr v"

subsection \<open>Membership and subscription\<close>

text \<open>\<^verbatim>\<open>key in v\<close> for a string key: key lookup on a dictionary, element search on a list,
  substring search on a string, \<^verbatim>\<open>TypeError\<close> on anything else.\<close>

fun py_in :: "string \<Rightarrow> json \<Rightarrow> error + bool" where
  "py_in k (JObj kvs) = Inr (k \<in> set (map fst kvs))"
| "py_in k (JList xs) = Inr (JStr k \<in> set xs)"
| "py_in k (JStr s) = Inr (is_substring k s)"
| "py_in k v = Inl TypeError"

text \<open>\<^verbatim>\<open>v[key]\<close> for a string key: only a dictionary can be subscripted by a string.\<close>

fun getitem :: "json \<Rightarrow> string \<Rightarrow> error + json" where
  "getitem (JObj kvs) k = (case map_of kvs k of None \<Rightarrow> Inl (KeyError k) | Some v \<Rightarrow> Inr v)"
| "getitem v k = Inl TypeError"

section \<open>The renderer: \<^verbatim>\<open>format_guide\<close>\<close>

text \<open>Every function below takes the text accumulated so far (\<^verbatim>\<open>markdown_text\<close>) and
  returns it extended, or the exception that left the function.\<close>

definition overview_section :: "json \<Rightarrow> string \<Rightarrow> error + string" where
  "overview_section guide_data md =
     and_then (py_in ''overview'' guide_data) (\<lambda>present.
       if present then
         and_then (getitem guide_data ''overview'') (\<lambda>overview.
           Inr (md @ ''## Overview\<newline>\<newline>'' @ py_str overview @ ''\<newline>\<newline>''))
       else Inr md)"

fun attractions_loop :: "json list \<Rightarrow> string \<Rightarrow> error + string" where
  "attractions_loop [] md = Inr md"
| "attractions_loop (attraction # rest) md =
     and_then (getitem attraction ''name'') (\<lambda>name.
       and_then (getitem attraction ''description'') (\<lambda>description.
         attractions_loop rest
           (md @ ''### '' @ py_str name @ ''\<newline>'' @ py_str description @ ''\<newline>\<newline>'')))"

definition attractions_section :: "json \<Rightarrow> string \<Rightarrow> error + string" where
  "attractions_section guide_data md =
     and_then (py_in ''attractions'' guide_data) (\<lambda>present.
       if present then
         and_then (getitem guide_data ''attractions'') (\<lambda>attractions.
           (case attractions of
              JList xs \<Rightarrow> attractions_loop xs (md @ ''## Must-See Attractions\<newline>\<newline>'')
            | _ \<Rightarrow> Inr (md @ ''## Must-See Attractions\<newline>\<newline>''
                        @ py_str attractions @ ''\<newline>\<newline>'')))
       else Inr md)"

text \<open>\<^verbatim>\<open>for key, value in d.items()\<close> with a heading and a body per entry; the transportation
  and the dining branch both have this loop.\<close>

fun items_loop :: "(string \<times> json) list \<Rightarrow> string \<Rightarrow> string" where
  "items_loop [] md = md"
| "items_loop ((k, v) # rest) md =
     items_loop rest (md @ ''### '' @ k @ ''\<newline>'' @ py_str v @ ''\<newline>\<newline>'')"

definition transportation_section :: "json \<Rightarrow> string \<Rightarrow> error + string" where
  "transportation_section guide_data md =
     and_then (py_in ''transportation'' guide_data) (\<lambda>present.
       if present then
         and_then (getitem guide_data ''transportation'') (\<lambda>transport.
           (case transport of
              JObj kvs \<Rightarrow> Inr (items_loop kvs (md @ ''## Getting Around\<newline>\<newline>''))
            | _ \<Rightarrow> Inr (md @ ''## Getting Around\<newline>\<newline>''
                        @ py_str transport @ ''\<newline>\<newline>'')))
       else Inr md)"

fun dining_loop :: "json list \<Rightarrow> string \<Rightarrow> string" where
  "dining_loop [] md = md"
| "dining_loop (item # rest) md =
     dining_loop rest
       (case item of
          JObj kvs \<Rightarrow> items_loop kvs md
        | _ \<Rightarrow> md @ ''- '' @ py_str item @ ''\<newline>'')"

definition food_section :: "json \<Rightarrow> string \<Rightarrow> error + string" where
  "food_section guide_data md =
     and_then (py_in ''food_and_dining'' guide_data) (\<lambda>present.
       if present then
         and_then (getitem guide_data ''food_and_dining'') (\<lambda>dining.
           (case dining of
              JList xs \<Rightarrow> Inr (dining_loop xs (md @ ''## Food & Dining\<newline>\<newline>''))
            | _ \<Rightarrow> Inr (md @ ''## Food & Dining\<newline>\<newline>''
                        @ py_str dining @ ''\<newline>\<newline>'')))
       else Inr md)"

fun tips_loop :: "json list \<Rightarrow> string \<Rightarrow> string" where
  "tips_loop [] md = md"
| "tips_loop (tip # rest) md = tips_loop rest (md @ ''- '' @ py_str tip @ ''\<newline>'')"

definition tips_section :: "json \<Rightarrow> string \<Rightarrow> error + string" where
  "tips_section guide_data md =
     and_then (py_in ''tips'' guide_data) (\<lambda>present.
       if present then
         and_then (getitem guide_data ''tips'') (\<lambda>tips.
           (case tips of
              JList xs \<Rightarrow> Inr (tips_loop xs (md @ ''## Practical Tips\<newline>\<newline>''))
            | _ \<Rightarrow> Inr (md @ ''## Practical Tips\<newline>\<newline>''
                        @ py_str tips @ ''\<newline>\<newline>'')))
       else Inr md)"

definition format_guide :: "json \<Rightarrow> string \<Rightarrow> error + string" where
  "format_guide guide_data destination =
     and_then (overview_section guide_data (''# Travel Guide: '' @ destination @ ''\<newline>\<newline>''))
       (\<lambda>md. and_then (attractions_section guide_data md)
         (\<lambda>md. and_then (transportation_section guide_data md)
           (\<lambda>md. and_then (food_section guide_data md)
             (\<lambda>md. tips_section guide_data md))))"

section \<open>The parsed page\<close>

text \<open>
  The page as the HTML parser hands it over: a tree of elements and strings. An element
  has a name, attributes and children in document order. \<open>Text\<close> is an ordinary string of
  the page; \<open>Comment\<close> is a string that \<^verbatim>\<open>get_text()\<close> passes over, a comment for one.
\<close>

datatype node =
    Text string
  | Comment string
  | Tag string "(string \<times> string) list" "node list"

text \<open>An element seen from inside its parent: the element and the siblings after it.
  Navigation to the next sibling only ever needs these.\<close>

type_synonym cursor = "node \<times> node list"

fun name :: "node \<Rightarrow> string option" where
  "name (Tag nm attrs kids) = Some nm"
| "name n = None"

fun children :: "node \<Rightarrow> node list" where
  "children (Tag nm attrs kids) = kids"
| "children n = []"

fun attr :: "node \<Rightarrow> string \<Rightarrow> string option" where
  "attr (Tag nm attrs kids) k = map_of attrs k"
| "attr n k = None"

text \<open>\<^verbatim>\<open>get_text()\<close>: the text of every descendant text node, in order; comments are left out.\<close>

fun get_text :: "node \<Rightarrow> string" where
  "get_text (Text s) = s"
| "get_text (Comment s) = []"
| "get_text (Tag nm attrs kids) = concat (map get_text kids)"

text \<open>\<^verbatim>\<open>find(...)\<close>: the first matching element among the descendants, in document order.\<close>

fun find_first :: "(node \<Rightarrow> bool) \<Rightarrow> node list \<Rightarrow> cursor option" where
  "find_first P [] = None"
| "find_first P (Tag nm attrs kids # rest) =
     (if P (Tag nm attrs kids) then Some (Tag nm attrs kids, rest)
      else (case find_first P kids of
              Some found \<Rightarrow> Some found
            | None \<Rightarrow> find_first P rest))"
| "find_first P (n # rest) = find_first P rest"

text \<open>\<^verbatim>\<open>find_all(...)\<close>: every matching element among the descendants, in document order;
  the descendants of a match are searched too.\<close>

fun find_all :: "(node \<Rightarrow> bool) \<Rightarrow> node list \<Rightarrow> cursor list" where
  "find_all P [] = []"
| "find_all P (Tag nm attrs kids # rest) =
     (if P (Tag nm attrs kids) then [(Tag nm attrs kids, rest)] else [])
     @ find_all P kids @ find_all P rest"
| "find_all P (n # rest) = find_all P rest"

text \<open>\<^verbatim>\<open>find_next_sibling()\<close> without arguments: the next sibling that is an element,
  given the siblings that follow. Strings between two elements, such as the line breaks of
  the page source, are stepped over.\<close>

fun find_next_sibling :: "node list \<Rightarrow> cursor option" where
  "find_next_sibling [] = None"
| "find_next_sibling (Tag nm attrs kids # rest) = Some (Tag nm attrs kids, rest)"
| "find_next_sibling (n # rest) = find_next_sibling rest"

subsection \<open>String methods\<close>

text \<open>The code points below 256 for which \<^verbatim>\<open>str.isspace\<close> holds.\<close>

definition is_space :: "char \<Rightarrow> bool" where
  "is_space c = (let n = of_char c :: nat in
     (9 \<le> n \<and> n \<le> 13) \<or> (28 \<le> n \<and> n \<le> 32) \<or> n = 133 \<or> n = 160)"

definition strip :: "string \<Rightarrow> string" where
  "strip s = rev (dropWhile is_space (rev (dropWhile is_space s)))"

definition lower_char :: "char \<Rightarrow> char" where
  "lower_char c = (let n = of_char c :: nat in
     if (65 \<le> n \<and> n \<le> 90) \<or> (192 \<le> n \<and> n \<le> 222 \<and> n \<noteq> 215) then char_of (n + 32) else c)"

definition lower :: "string \<Rightarrow> string" where
  "lower s = map lower_char s"

definition replace_char :: "char \<Rightarrow> char \<Rightarrow> string \<Rightarrow> string" where
  "replace_char old new s = map (\<lambda>c. if c = old then new else c) s"

section \<open>The extractor: \<^verbatim>\<open>scrape_destination_info\<close>\<close>

text \<open>The dictionary \<^verbatim>\<open>info\<close>, in the order of its literal.\<close>

type_synonym info = "(string \<times> string) list"

text \<open>\<^verbatim>\<open>d[k] = v\<close>: the value of an existing key is replaced in place, a new key goes last.\<close>

fun setitem :: "info \<Rightarrow> string \<Rightarrow> string \<Rightarrow> info" where
  "setitem [] k v = [(k, v)]"
| "setitem ((k', v') # rest) k v =
     (if k' = k then (k, v) # rest else (k', v') # setitem rest k v)"

text \<open>\<^verbatim>\<open>d[k] += s\<close>: reads the key first, so a missing key raises.\<close>

definition append_item :: "info \<Rightarrow> string \<Rightarrow> string \<Rightarrow> error + info" where
  "append_item d k s =
     (case map_of d k of
        None \<Rightarrow> Inl (KeyError k)
      | Some old \<Rightarrow> Inr (setitem d k (old @ s)))"

text \<open>The first loop: from the first paragraph of the container, along the following
  element siblings for as long as they are paragraphs.\<close>

function intro_loop :: "cursor option \<Rightarrow> string list \<Rightarrow> string list" where
  "intro_loop None intro_paras = intro_paras"
| "intro_loop (Some (current, sibs)) intro_paras =
     (if name current = Some ''p''
      then intro_loop (find_next_sibling sibs) (intro_paras @ [strip (get_text current)])
      else intro_paras)"
  by pat_completeness auto
termination
proof (relation "measure (\<lambda>(c, acc). case c of None \<Rightarrow> 0 | Some (n, sibs) \<Rightarrow> Suc (length sibs))",
    goal_cases)
  case 1
  show ?case by simp
next
  case (2 elem sibs acc)
  have "find_next_sibling sibs = Some (n, after) \<Longrightarrow> length after < length sibs" for n after
    by (induction sibs rule: find_next_sibling.induct) auto
  then show ?case by (auto split: option.splits)
qed

text \<open>The inner loop of the heading scan: along the element siblings after a heading up to
  the next level-2 or level-3 heading, keeping the text of the paragraphs.\<close>

function section_loop :: "cursor option \<Rightarrow> string list \<Rightarrow> string list" where
  "section_loop None section_content = section_content"
| "section_loop (Some (next_elem, sibs)) section_content =
     (if name next_elem \<notin> {Some ''h2'', Some ''h3''}
      then section_loop (find_next_sibling sibs)
             (if name next_elem = Some ''p''
              then section_content @ [strip (get_text next_elem)]
              else section_content)
      else section_content)"
  by pat_completeness auto
termination
proof (relation "measure (\<lambda>(c, acc). case c of None \<Rightarrow> 0 | Some (n, sibs) \<Rightarrow> Suc (length sibs))",
    goal_cases)
  case 1
  show ?case by simp
next
  case (2 elem sibs acc)
  have "find_next_sibling sibs = Some (n, after) \<Longrightarrow> length after < length sibs" for n after
    by (induction sibs rule: find_next_sibling.induct) auto
  then show ?case by (auto split: option.splits)
qed

text \<open>The keyword test on a heading's lowercased text; a heading with none of the keywords
  leaves \<^verbatim>\<open>current_section\<close> as it is.\<close>

definition map_heading :: "string \<Rightarrow> string option \<Rightarrow> string option" where
  "map_heading heading_text current_section =
     (if is_substring ''see'' heading_text \<or> is_substring ''sight'' heading_text
        then Some ''attractions''
      else if is_substring ''get around'' heading_text \<or> is_substring ''transport'' heading_text
        then Some ''transportation''
      else if is_substring ''eat'' heading_text \<or> is_substring ''food'' heading_text
        then Some ''food''
      else if is_substring ''understand'' heading_text \<or> is_substring ''tips'' heading_text
        then Some ''tips''
      else current_section)"

text \<open>\<^verbatim>\<open>if current_section:\<close> holds for a string that is not empty.\<close>

fun truthy_section :: "string option \<Rightarrow> bool" where
  "truthy_section None = False"
| "truthy_section (Some s) = (s \<noteq> [])"

fun headings_loop :: "cursor list \<Rightarrow> string option \<Rightarrow> info \<Rightarrow> error + info" where
  "headings_loop [] current_section info = Inr info"
| "headings_loop ((heading, sibs) # rest) current_section info =
     (let current_section = map_heading (lower (get_text heading)) current_section
      in if truthy_section current_section
         then and_then
                (append_item info (the current_section)
                   (join '' '' (section_loop (find_next_sibling sibs) [])))
                (\<lambda>info. headings_loop rest current_section info)
         else headings_loop rest current_section info)"

text \<open>What the function prints: a plain line, or a prefix followed by the text of an
  exception.\<close>

datatype printed = Line string | ErrLine string error

definition is_content_div :: "node \<Rightarrow> bool" where
  "is_content_div n = (name n = Some ''div'' \<and> attr n ''id'' = Some ''mw-content-text'')"

definition is_paragraph :: "node \<Rightarrow> bool" where
  "is_paragraph n = (name n = Some ''p'')"

definition is_heading :: "node \<Rightarrow> bool" where
  "is_heading n = (name n \<in> {Some ''h2'', Some ''h3''})"

definition initial_info :: info where
  "initial_info =
     [(''overview'', []), (''attractions'', []), (''transportation'', []),
      (''food'', []), (''tips'', [])]"

definition page_url :: "string \<Rightarrow> string" where
  "page_url destination =
     ''https://wikitravel.org/en/'' @ replace_char CHR '' '' CHR ''_'' destination"

text \<open>The part of the function after the container has been found.\<close>

definition scrape_content :: "node \<Rightarrow> error + info" where
  "scrape_content content =
     (let intro_paras = intro_loop (find_first is_paragraph (children content)) [];
          info = setitem initial_info ''overview'' (join '' '' intro_paras);
          headings = find_all is_heading (children content)
      in headings_loop headings None info)"

text \<open>
  \<open>fetch\<close> stands for the request, its status check and the parsing of the body: given the
  URL it raises or yields the top-level nodes of the document. The result is what was
  printed and what was returned (\<open>None\<close> for Python's \<^verbatim>\<open>None\<close>).
\<close>

definition scrape_destination_info ::
  "(string \<Rightarrow> error + node list) \<Rightarrow> string \<Rightarrow> printed list \<times> info option" where
  "scrape_destination_info fetch destination =
     (case fetch (page_url destination) of
        Inl e \<Rightarrow> ([ErrLine ''Error scraping data: '' e], None)
      | Inr soup \<Rightarrow>
          (case find_first is_content_div soup of
             None \<Rightarrow> ([], None)
           | Some (content, after) \<Rightarrow>
               (case scrape_content content of
                  Inl e \<Rightarrow> ([ErrLine ''Error scraping data: '' e], None)
                | Inr info \<Rightarrow> ([], Some info))))"

section \<open>The model call: \<^verbatim>\<open>generate_guide\<close>\<close>

text \<open>\<^verbatim>\<open>info[k]\<close> on the scraped dictionary.\<close>

definition info_get :: "info \<Rightarrow> string \<Rightarrow> error + string" where
  "info_get d k = (case map_of d k of None \<Rightarrow> Inl (KeyError k) | Some v \<Rightarrow> Inr v)"

definition prompt_footer :: string where
  \<open>prompt_footer =
     ''Generate a travel guide as a JSON object with exactly these keys:\<newline>{\<newline>''
     @ ''    "overview": "brief city introduction",\<newline>''
     @ ''    "attractions": "main tourist sites",\<newline>''
     @ ''    "transportation": "how to get around",\<newline>''
     @ ''    "food_and_dining": "food recommendations",\<newline>''
     @ ''    "tips": "practical advice"\<newline>}\<newline>''\<close>

definition get_user_prompt :: "string \<Rightarrow> info \<Rightarrow> error + string" where
  "get_user_prompt destination info =
     and_then (info_get info ''overview'') (\<lambda>overview.
     and_then (info_get info ''attractions'') (\<lambda>attractions.
     and_then (info_get info ''transportation'') (\<lambda>transportation.
     and_then (info_get info ''food'') (\<lambda>food.
     and_then (info_get info ''tips'') (\<lambda>tips.
       Inr (''Create a travel guide for '' @ destination @ '' using this information:\<newline>\<newline>''
            @ ''Overview: '' @ overview @ ''\<newline>\<newline>''
            @ ''Attractions: '' @ attractions @ ''\<newline>\<newline>''
            @ ''Transportation: '' @ transportation @ ''\<newline>\<newline>''
            @ ''Food & Dining: '' @ food @ ''\<newline>\<newline>''
            @ ''Tips & Understanding: '' @ tips @ ''\<newline>\<newline>''
            @ prompt_footer))))))"

definition required_keys :: "string list" where
  "required_keys = [''overview'', ''attractions'', ''transportation'', ''food_and_dining'', ''tips'']"

text \<open>The comprehension \<^verbatim>\<open>[key for key in required_keys if key not in result]\<close>; the
  membership test raises on a result that is no container.\<close>

fun missing_from :: "string list \<Rightarrow> json \<Rightarrow> error + string list" where
  "missing_from [] result = Inr []"
| "missing_from (key # keys) result =
     and_then (py_in key result) (\<lambda>present.
       and_then (missing_from keys result) (\<lambda>others.
         Inr (if \<not> present then key # others else others)))"

text \<open>
  The surroundings of the call are parameters. \<open>chat n prompt\<close> is what the \<open>n\<close>-th request
  to the model service does when it carries this user prompt (the model name, the system
  prompt, the response format and the temperature are constants of the notebook): it
  raises, or yields the content of the first completion. An exception raised on the way to
  that content counts as raised by the request; all of them end in the same handler.
  \<open>loads\<close> is the JSON decoder: the message of its \<^verbatim>\<open>JSONDecodeError\<close>, or the decoded
  value. The state that is threaded through is the number of requests made so far.

  The result is what was printed, what was returned, and the new number of requests.
\<close>

definition generate_guide ::
  "(nat \<Rightarrow> string \<Rightarrow> error + string) \<Rightarrow> (string \<Rightarrow> string + json) \<Rightarrow> nat \<Rightarrow>
     string \<Rightarrow> info \<Rightarrow> printed list \<times> json option \<times> nat" where
  "generate_guide chat loads requests destination content =
     (case get_user_prompt destination content of
        Inl e \<Rightarrow> ([ErrLine ''Error generating guide: '' e], None, requests)
      | Inr prompt \<Rightarrow>
          (case chat requests prompt of
             Inl e \<Rightarrow> ([ErrLine ''Error generating guide: '' e], None, Suc requests)
           | Inr text \<Rightarrow>
               (case loads text of
                  Inl msg \<Rightarrow>
                    ([Line (''JSON parsing error: '' @ msg), Line ''Problematic content:'',
                      Line text], None, Suc requests)
                | Inr result \<Rightarrow>
                    (case missing_from required_keys result of
                       Inl e \<Rightarrow> ([ErrLine ''Error generating guide: '' e], None, Suc requests)
                     | Inr missing_keys \<Rightarrow>
                         if missing_keys \<noteq> []
                         then ([Line (''Missing required keys: ''
                                       @ py_repr (JList (map JStr missing_keys)))],
                               None, Suc requests)
                         else ([], Some result, Suc requests)))))"

section \<open>The driver: \<^verbatim>\<open>create_travel_guide\<close>\<close>

text \<open>Python's truth value of what the two steps return.\<close>

fun truthy :: "json \<Rightarrow> bool" where
  "truthy JNull = False"
| "truthy (JBool b) = b"
| "truthy (JInt i) = (i \<noteq> 0)"
| "truthy (JFloat r) = (r \<noteq> ''0.0'' \<and> r \<noteq> ''-0.0'')"
| "truthy (JStr s) = (s \<noteq> [])"
| "truthy (JList xs) = (xs \<noteq> [])"
| "truthy (JObj kvs) = (kvs \<noteq> [])"

text \<open>How a run ends: the guide is displayed, the function returns early, or an exception
  leaves it.\<close>

datatype outcome = Displayed string | Halted | Raised error

definition create_travel_guide ::
  "(string \<Rightarrow> error + node list) \<Rightarrow> (nat \<Rightarrow> string \<Rightarrow> error + string) \<Rightarrow>
     (string \<Rightarrow> string + json) \<Rightarrow> nat \<Rightarrow> string \<Rightarrow> printed list \<times> outcome \<times> nat" where
  "create_travel_guide fetch chat loads requests destination =
     (let (out1, content) = scrape_destination_info fetch destination;
          out1 = Line (''Scraping information for '' @ destination @ ''...'') # out1
      in case content of
           None \<Rightarrow> (out1 @ [Line ''Failed to scrape content''], Halted, requests)
         | Some info \<Rightarrow>
             if info = [] then (out1 @ [Line ''Failed to scrape content''], Halted, requests)
             else
               (let (out2, guide_data, requests) =
                      generate_guide chat loads requests destination info;
                    out2 = out1 @ [Line ''Generating guide...''] @ out2
                in case guide_data of
                     None \<Rightarrow> (out2 @ [Line ''Failed to generate guide''], Halted, requests)
                   | Some guide \<Rightarrow>
                       if \<not> truthy guide
                       then (out2 @ [Line ''Failed to generate guide''], Halted, requests)
                       else (case format_guide guide destination of
                               Inl e \<Rightarrow> (out2, Raised e, requests)
                             | Inr markdown_guide \<Rightarrow>
                                 (out2, Displayed markdown_guide, requests))))"

section \<open>The specification's reading of the overview\<close>

text \<open>
  The elements of the container in document order: an element comes before its
  descendants, and these before its later siblings.
\<close>

fun elements :: "node list \<Rightarrow> node list" where
  "elements [] = []"
| "elements (Tag nm attrs kids # rest) = Tag nm attrs kids # elements kids @ elements rest"
| "elements (n # rest) = elements rest"

text \<open>
  The specification's sentence on the overview, word for word: the text of every
  paragraph that comes before the first heading of the container, joined by single
  spaces. It is not taken from the code; it is what the code is compared with.
\<close>

definition spec_overview :: "node \<Rightarrow> string" where
  "spec_overview content =
     join '' '' (map (\<lambda>p. strip (get_text p))
       (filter is_paragraph (takeWhile (\<lambda>n. \<not> is_heading n) (elements (children content)))))"

section \<open>Notions used to state the properties\<close>

text \<open>None of the following is code of the notebook; these definitions only give names to
  what the theorems talk about.\<close>

definition is_element :: "node \<Rightarrow> bool" where
  "is_element n = (name n \<noteq> None)"

text \<open>A position and the element siblings after it, as one list.\<close>

definition cursor_siblings :: "cursor option \<Rightarrow> node list" where
  "cursor_siblings c = (case c of None \<Rightarrow> [] | Some (n, sibs) \<Rightarrow> n # filter is_element sibs)"

text \<open>The first run of paragraphs: from the first paragraph found anywhere in the
  container, through its following element siblings, up to the first that is no paragraph.\<close>

definition first_paragraph_run :: "node \<Rightarrow> node list" where
  "first_paragraph_run content =
     takeWhile is_paragraph (cursor_siblings (find_first is_paragraph (children content)))"

text \<open>The names of the four buckets a heading can select, and the keys of the result.\<close>

definition section_names :: "string set" where
  "section_names = {''attractions'', ''transportation'', ''food'', ''tips''}"

definition five_keys :: "string list" where
  "five_keys = [''overview'', ''attractions'', ''transportation'', ''food'', ''tips'']"

definition section_keywords :: "string list" where
  "section_keywords = [''see'', ''sight'', ''get around'', ''transport'', ''eat'', ''food'',
               ''understand'', ''tips'']"

text \<open>The headings in document order that contribute, each with the bucket that is current
  when it is reached and the joined text of the paragraphs that follow it.\<close>

fun section_runs :: "cursor list \<Rightarrow> string option \<Rightarrow> (string \<times> string) list" where
  "section_runs [] current_section = []"
| "section_runs ((heading, sibs) # rest) current_section =
     (let current_section = map_heading (lower (get_text heading)) current_section
      in (if truthy_section current_section
          then [(the current_section, join '' '' (section_loop (find_next_sibling sibs) []))]
          else [])
         @ section_runs rest current_section)"

text \<open>The five guide keys with the part of \<^verbatim>\<open>format_guide\<close> that renders each, in the order
  of the code.\<close>

definition guide_sections :: "(string \<times> (json \<Rightarrow> string \<Rightarrow> error + string)) list" where
  "guide_sections =
     [(''overview'', overview_section), (''attractions'', attractions_section),
      (''transportation'', transportation_section), (''food_and_dining'', food_section),
      (''tips'', tips_section)]"

text \<open>An element of an attractions list that the loop can render: a mapping that has both
  a \<^verbatim>\<open>name\<close> and a \<^verbatim>\<open>description\<close>.\<close>

fun labelled :: "json \<Rightarrow> bool" where
  "labelled (JObj kvs) = (''name'' \<in> set (map fst kvs) \<and> ''description'' \<in> set (map fst kvs))"
| "labelled v = False"

text \<open>A chain of renderers, each handing its text to the next; the first exception ends it.\<close>

fun run_sections ::
  "(string \<times> (json \<Rightarrow> string \<Rightarrow> error + string)) list \<Rightarrow> json \<Rightarrow> string \<Rightarrow> error + string" where
  "run_sections [] guide_data md = Inr md"
| "run_sections ((k, render) # rest) guide_data md =
     and_then (render guide_data md) (run_sections rest guide_data)"

text \<open>A page service that answers every request with the same document.\<close>

definition serving :: "node list \<Rightarrow> string \<Rightarrow> error + node list" where
  "serving soup url = Inr soup"

text \<open>A model service that answers every request with the same text, and a decoder that
  knows one text.\<close>

definition replying :: "string \<Rightarrow> nat \<Rightarrow> string \<Rightarrow> error + string" where
  "replying text n prompt = Inr text"

definition decoding :: "string \<Rightarrow> json \<Rightarrow> string \<Rightarrow> string + json" where
  "decoding good result text =
     (if text = good then Inr result else Inl ''Expecting value: line 1 column 1 (char 0)'')"

section \<open>Basic facts\<close>

lemma and_then_simps [simp]:
  "and_then (Inl e) f = Inl e" "and_then (Inr x) f = f x"
  by (simp_all add: and_then_def)

lemma map_of_setitem: "map_of (setitem d k v) k' = (if k' = k then Some v else map_of d k')"
  by (induction d) auto

lemma keys_setitem: "map_of d k = Some old \<Longrightarrow> map fst (setitem d k v) = map fst d"
  by (induction d) (auto split: if_splits)

lemma map_heading_cases:
  "map_heading t cs = cs \<or> map_heading t cs \<in> Some ` section_names"
  by (simp add: map_heading_def section_names_def)

lemma map_heading_unmatched:
  "\<forall>kw \<in> set section_keywords. \<not> is_substring kw t \<Longrightarrow> map_heading t cs = cs"
  by (simp add: map_heading_def section_keywords_def)

lemma is_element_simps [simp]:
  "is_element (Tag nm attrs kids)" "\<not> is_element (Text s)" "\<not> is_element (Comment s)"
  by (simp_all add: is_element_def)

lemma find_next_sibling_filter:
  "cursor_siblings (find_next_sibling sibs) = filter is_element sibs"
  by (induction sibs rule: find_next_sibling.induct) (simp_all add: cursor_siblings_def)

section \<open>The extractor's loops\<close>

text \<open>The first loop collects exactly the leading paragraphs of the element siblings it
  walks along.\<close>

lemma intro_loop_run:
  "intro_loop c acc =
     acc @ map (\<lambda>p. strip (get_text p)) (takeWhile is_paragraph (cursor_siblings c))"
proof (induction c acc rule: intro_loop.induct)
  case (1 acc)
  then show ?case by (simp add: cursor_siblings_def)
next
  case (2 current sibs acc)
  show ?case
  proof (cases "name current = Some ''p''")
    case True
    then show ?thesis
      using 2 find_next_sibling_filter [of sibs]
      by (simp add: is_paragraph_def cursor_siblings_def)
  next
    case False
    then show ?thesis by (simp add: is_paragraph_def cursor_siblings_def)
  qed
qed

text \<open>The inner loop collects the paragraphs among the element siblings up to the next
  heading.\<close>

lemma section_loop_run:
  "section_loop c acc =
     acc @ map (\<lambda>p. strip (get_text p))
             (filter is_paragraph (takeWhile (\<lambda>n. \<not> is_heading n) (cursor_siblings c)))"
proof (induction c acc rule: section_loop.induct)
  case (1 acc)
  then show ?case by (simp add: cursor_siblings_def)
next
  case (2 next_elem sibs acc)
  show ?case
  proof (cases "is_heading next_elem")
    case True
    then have "name next_elem \<in> {Some ''h2'', Some ''h3''}" by (simp add: is_heading_def)
    with True show ?thesis by (simp add: cursor_siblings_def)
  next
    case False
    then have "name next_elem \<notin> {Some ''h2'', Some ''h3''}" by (simp add: is_heading_def)
    with 2 False show ?thesis
      using find_next_sibling_filter [of sibs]
      by (simp add: is_paragraph_def cursor_siblings_def)
  qed
qed

text \<open>Started with no section or one of the four, on a dictionary with the five keys, the
  heading scan raises nothing, keeps the keys and leaves the overview alone.\<close>

lemma headings_loop_total:
  assumes "cs = None \<or> cs \<in> Some ` section_names" and "map fst info = five_keys"
  shows "\<exists>info'. headings_loop hs cs info = Inr info' \<and> map fst info' = five_keys
           \<and> map_of info' ''overview'' = map_of info ''overview''"
  using assms
proof (induction hs arbitrary: cs info)
  case Nil
  then show ?case by simp
next
  case (Cons hd hs)
  obtain heading sibs where hd: "hd = (heading, sibs)" by (cases hd)
  let ?cs = "map_heading (lower (get_text heading)) cs"
  have valid: "?cs = None \<or> ?cs \<in> Some ` section_names"
    using map_heading_cases [of "lower (get_text heading)" cs] Cons.prems(1) by auto
  show ?case
  proof (cases ?cs)
    case None
    then show ?thesis using Cons.IH [of ?cs info] Cons.prems(2) hd by simp
  next
    case (Some sec)
    with valid have sec: "sec \<in> section_names" by auto
    then have "sec \<in> set (map fst info)"
      by (auto simp: Cons.prems(2) five_keys_def section_names_def)
    then obtain old where old: "map_of info sec = Some old"
      by (metis map_of_eq_None_iff not_None_eq set_map)
    let ?info = "setitem info sec (old @ join '' '' (section_loop (find_next_sibling sibs) []))"
    have keys: "map fst ?info = five_keys"
      using keys_setitem [OF old] Cons.prems(2) by simp
    have ne: "sec \<noteq> ''overview''" "sec \<noteq> []"
      using sec by (auto simp: section_names_def)
    have ov: "map_of ?info ''overview'' = map_of info ''overview''"
      using ne by (simp add: map_of_setitem)
    from Cons.IH [of ?cs ?info] valid keys obtain info' where
      "headings_loop hs ?cs ?info = Inr info'" "map fst info' = five_keys"
      "map_of info' ''overview'' = map_of ?info ''overview''"
      by blast
    then show ?thesis
      using Some old ne ov hd by (simp add: append_item_def)
  qed
qed

text \<open>What the heading scan leaves in a bucket: the old value followed by the runs that went
  to this bucket, one after the other.\<close>

lemma headings_loop_buckets:
  "headings_loop hs cs info = Inr info' \<Longrightarrow>
   map_of info' k =
     map_option (\<lambda>old. old @ concat (map snd (filter (\<lambda>r. fst r = k) (section_runs hs cs))))
       (map_of info k)"
proof (induction hs arbitrary: cs info)
  case Nil
  then show ?case by (simp add: option.map_ident)
next
  case (Cons hd hs)
  obtain heading sibs where hd: "hd = (heading, sibs)" by (cases hd)
  let ?cs = "map_heading (lower (get_text heading)) cs"
  let ?run = "join '' '' (section_loop (find_next_sibling sibs) [])"
  show ?case
  proof (cases "truthy_section ?cs")
    case False
    then show ?thesis using Cons hd by simp
  next
    case True
    then obtain sec where sec: "?cs = Some sec" by (cases ?cs) auto
    from Cons.prems True sec hd obtain old where old: "map_of info sec = Some old"
      and loop: "headings_loop hs ?cs (setitem info sec (old @ ?run)) = Inr info'"
      by (auto simp: append_item_def Let_def split: option.splits)
    from Cons.IH [OF loop] show ?thesis
      using True sec old hd by (cases "map_of info k") (auto simp: map_of_setitem Let_def)
  qed
qed

text \<open>The body of the extractor, once the container is there: it returns a dictionary with
  the five keys, whose overview is the joined text of the first paragraph run.\<close>

lemma scrape_content_result:
  "\<exists>info. scrape_content content = Inr info \<and> map fst info = five_keys
     \<and> map_of info ''overview''
         = Some (join '' '' (map (\<lambda>p. strip (get_text p)) (first_paragraph_run content)))"
proof -
  let ?ov = "join '' '' (intro_loop (find_first is_paragraph (children content)) [])"
  let ?info = "setitem initial_info ''overview'' ?ov"
  have keys: "map fst ?info = five_keys"
    by (simp add: initial_info_def five_keys_def)
  have ov: "map_of ?info ''overview'' = Some ?ov"
    by (simp add: map_of_setitem)
  from headings_loop_total [of None ?info "find_all is_heading (children content)", OF _ keys]
  obtain info' where
    "headings_loop (find_all is_heading (children content)) None ?info = Inr info'"
    "map fst info' = five_keys" "map_of info' ''overview'' = map_of ?info ''overview''"
    by auto
  then show ?thesis
    using ov by (simp add: scrape_content_def Let_def intro_loop_run first_paragraph_run_def)
qed

section \<open>Properties of the extractor\<close>

text \<open>
  Claim C5. For every destination whose fetched page contains the main content container,
  \<^verbatim>\<open>scrape_destination_info\<close> returns a mapping with exactly the five keys overview,
  attractions, transportation, food and tips, each bound to a string (possibly empty).
  Nothing is printed on this path. That the values are strings is the type of the
  dictionary.
\<close>

theorem scrape_returns_five_keys:
  assumes "fetch (page_url destination) = Inr soup"
    and "find_first is_content_div soup = Some (content, after)"
  shows "\<exists>info. scrape_destination_info fetch destination = ([], Some info)
           \<and> map fst info = [''overview'', ''attractions'', ''transportation'', ''food'', ''tips'']"
  using assms scrape_content_result [of content]
  by (auto simp: scrape_destination_info_def five_keys_def)

theorem scrape_returns_five_keys_witness:
  "serving [Tag ''html'' [] [Tag ''div'' [(''id'', ''mw-content-text'')]
       [Tag ''p'' [] [Text ''A city.'']]]] (page_url ''New York'')
     = Inr [Tag ''html'' [] [Tag ''div'' [(''id'', ''mw-content-text'')]
         [Tag ''p'' [] [Text ''A city.'']]]]
   \<and> find_first is_content_div [Tag ''html'' [] [Tag ''div'' [(''id'', ''mw-content-text'')]
         [Tag ''p'' [] [Text ''A city.'']]]]
     = Some (Tag ''div'' [(''id'', ''mw-content-text'')] [Tag ''p'' [] [Text ''A city.'']], [])
   \<and> (\<exists>info. scrape_destination_info
         (serving [Tag ''html'' [] [Tag ''div'' [(''id'', ''mw-content-text'')]
            [Tag ''p'' [] [Text ''A city.'']]]]) ''New York'' = ([], Some info)
        \<and> map fst info = [''overview'', ''attractions'', ''transportation'', ''food'', ''tips''])"
proof -
  let ?content = "Tag ''div'' [(''id'', ''mw-content-text'')] [Tag ''p'' [] [Text ''A city.'']]"
  let ?soup = "[Tag ''html'' [] [?content]]"
  have fetched: "serving ?soup (page_url ''New York'') = Inr ?soup"
    by (simp add: serving_def)
  have found: "find_first is_content_div ?soup = Some (?content, [])"
    by code_simp
  from scrape_returns_five_keys
         [where fetch = "serving ?soup" and destination = "''New York''", OF fetched found]
       fetched found
  show ?thesis
    by blast
qed

text \<open>
  Claim C3, as stated: for every parsed page whose content container is present, the
  overview is the text of every paragraph before the first heading of the container, joined
  by single spaces. The code does something else. It starts at the first paragraph found
  anywhere in the container, also after a heading, and it stops at the first element
  sibling that is no paragraph, also when more paragraphs follow before the first heading.
  On the first page below a heading comes first and the paragraph after it is taken as
  overview, where the claim gives the empty string; on the second the paragraph after the
  list is left out, where the claim gives both.
\<close>

theorem overview_before_first_heading_counterexample:
  "scrape_content (Tag ''div'' [(''id'', ''mw-content-text'')]
       [Tag ''h2'' [] [Text ''See''], Tag ''p'' [] [Text ''A'']])
     = Inr [(''overview'', ''A''), (''attractions'', ''A''), (''transportation'', []),
            (''food'', []), (''tips'', [])]
   \<and> spec_overview (Tag ''div'' [(''id'', ''mw-content-text'')]
       [Tag ''h2'' [] [Text ''See''], Tag ''p'' [] [Text ''A'']]) = []
   \<and> scrape_content (Tag ''div'' [(''id'', ''mw-content-text'')]
       [Tag ''p'' [] [Text ''A''], Tag ''ul'' [] [], Tag ''p'' [] [Text ''B''],
        Tag ''h2'' [] [Text ''See'']])
     = Inr [(''overview'', ''A''), (''attractions'', []), (''transportation'', []),
            (''food'', []), (''tips'', [])]
   \<and> spec_overview (Tag ''div'' [(''id'', ''mw-content-text'')]
       [Tag ''p'' [] [Text ''A''], Tag ''ul'' [] [], Tag ''p'' [] [Text ''B''],
        Tag ''h2'' [] [Text ''See'']]) = ''A B''"
  by code_simp

text \<open>
  Claim C3, amended: for every parsed page whose content container is present, the overview
  is the stripped text of the first run of paragraphs, joined by single spaces: the run
  starts at the first paragraph element found anywhere in the container, in document
  order, and goes on through that paragraph's following element siblings for as long as
  they are paragraphs. It is empty when the container has no paragraph.
\<close>

theorem overview_is_first_paragraph_run:
  assumes "fetch (page_url destination) = Inr soup"
    and "find_first is_content_div soup = Some (content, after)"
  shows "\<exists>info. scrape_destination_info fetch destination = ([], Some info)
           \<and> map_of info ''overview''
               = Some (join '' '' (map (\<lambda>p. strip (get_text p)) (first_paragraph_run content)))"
  using assms scrape_content_result [of content]
  by (auto simp: scrape_destination_info_def)

theorem overview_is_first_paragraph_run_witness:
  "serving [Tag ''div'' [(''id'', ''mw-content-text'')]
       [Tag ''p'' [] [Text '' A ''], Text ''x'', Tag ''p'' [] [Text ''B''], Tag ''ul'' [] [],
        Tag ''p'' [] [Text ''C''], Tag ''h2'' [] [Text ''See'']]] (page_url ''Rome'')
     = Inr [Tag ''div'' [(''id'', ''mw-content-text'')]
       [Tag ''p'' [] [Text '' A ''], Text ''x'', Tag ''p'' [] [Text ''B''], Tag ''ul'' [] [],
        Tag ''p'' [] [Text ''C''], Tag ''h2'' [] [Text ''See'']]]
   \<and> find_first is_content_div [Tag ''div'' [(''id'', ''mw-content-text'')]
       [Tag ''p'' [] [Text '' A ''], Text ''x'', Tag ''p'' [] [Text ''B''], Tag ''ul'' [] [],
        Tag ''p'' [] [Text ''C''], Tag ''h2'' [] [Text ''See'']]]
     = Some (Tag ''div'' [(''id'', ''mw-content-text'')]
       [Tag ''p'' [] [Text '' A ''], Text ''x'', Tag ''p'' [] [Text ''B''], Tag ''ul'' [] [],
        Tag ''p'' [] [Text ''C''], Tag ''h2'' [] [Text ''See'']], [])
   \<and> (\<exists>info. scrape_destination_info (serving [Tag ''div'' [(''id'', ''mw-content-text'')]
       [Tag ''p'' [] [Text '' A ''], Text ''x'', Tag ''p'' [] [Text ''B''], Tag ''ul'' [] [],
        Tag ''p'' [] [Text ''C''], Tag ''h2'' [] [Text ''See'']]]) ''Rome'' = ([], Some info)
        \<and> map_of info ''overview'' = Some ''A B'')"
proof -
  let ?content = "Tag ''div'' [(''id'', ''mw-content-text'')]
       [Tag ''p'' [] [Text '' A ''], Text ''x'', Tag ''p'' [] [Text ''B''], Tag ''ul'' [] [],
        Tag ''p'' [] [Text ''C''], Tag ''h2'' [] [Text ''See'']]"
  have fetched: "serving [?content] (page_url ''Rome'') = Inr [?content]"
    by (simp add: serving_def)
  have found: "find_first is_content_div [?content] = Some (?content, [])"
    by code_simp
  have run: "join '' '' (map (\<lambda>p. strip (get_text p)) (first_paragraph_run ?content)) = ''A B''"
    by code_simp
  from overview_is_first_paragraph_run
         [where fetch = "serving [?content]" and destination = "''Rome''", OF fetched found]
       fetched found
  show ?thesis
    unfolding run by blast
qed

text \<open>
  Claim C4. During the heading scan, a heading whose lowercased text has none of the
  section keywords leaves the current section as it is, so the paragraphs after it are
  appended to the bucket of the most recently matched heading: the scan goes on with the
  same section, and with that bucket extended by the joined paragraph text. So on a page
  with the heading "History" after the heading "Eat", the paragraphs after "History" end
  up in the food bucket.
\<close>

theorem unmatched_heading_falls_through:
  assumes "\<forall>kw \<in> set section_keywords. \<not> is_substring kw (lower (get_text heading))"
    and "sec \<noteq> []"
    and "map_of info sec = Some old"
  shows "map_heading (lower (get_text heading)) current = current
       \<and> headings_loop ((heading, sibs) # rest) (Some sec) info
           = headings_loop rest (Some sec)
               (setitem info sec (old @ join '' '' (section_loop (find_next_sibling sibs) [])))"
  using assms map_heading_unmatched [of "lower (get_text heading)"]
  by (simp add: append_item_def)

theorem unmatched_heading_falls_through_witness:
  "\<not> is_substring ''see'' (lower (get_text (Tag ''h2'' [] [Text ''History''])))
   \<and> \<not> is_substring ''sight'' (lower (get_text (Tag ''h2'' [] [Text ''History''])))
   \<and> \<not> is_substring ''get around'' (lower (get_text (Tag ''h2'' [] [Text ''History''])))
   \<and> \<not> is_substring ''transport'' (lower (get_text (Tag ''h2'' [] [Text ''History''])))
   \<and> \<not> is_substring ''eat'' (lower (get_text (Tag ''h2'' [] [Text ''History''])))
   \<and> \<not> is_substring ''food'' (lower (get_text (Tag ''h2'' [] [Text ''History''])))
   \<and> \<not> is_substring ''understand'' (lower (get_text (Tag ''h2'' [] [Text ''History''])))
   \<and> \<not> is_substring ''tips'' (lower (get_text (Tag ''h2'' [] [Text ''History''])))
   \<and> ''food'' \<noteq> []
   \<and> map_of [(''overview'', []), (''attractions'', []), (''transportation'', []),
              (''food'', ''Pasta.''), (''tips'', [])] ''food'' = Some ''Pasta.''
   \<and> headings_loop [(Tag ''h2'' [] [Text ''History''], [Tag ''p'' [] [Text ''Old town.'']])]
        (Some ''food'')
        [(''overview'', []), (''attractions'', []), (''transportation'', []),
         (''food'', ''Pasta.''), (''tips'', [])]
       = Inr [(''overview'', []), (''attractions'', []), (''transportation'', []),
              (''food'', ''Pasta.Old town.''), (''tips'', [])]
   \<and> scrape_content (Tag ''div'' [(''id'', ''mw-content-text'')]
        [Tag ''h2'' [] [Text ''Eat''], Tag ''p'' [] [Text ''Pasta.''],
         Tag ''h2'' [] [Text ''History''], Tag ''p'' [] [Text ''Old town.'']])
       = Inr [(''overview'', ''Pasta.''), (''attractions'', []), (''transportation'', []),
              (''food'', ''Pasta.Old town.''), (''tips'', [])]"
proof -
  let ?history = "Tag ''h2'' [] [Text ''History'']"
  let ?sibs = "[Tag ''p'' [] [Text ''Old town.'']]"
  let ?info = "[(''overview'', []), (''attractions'', []), (''transportation'', []),
                (''food'', ''Pasta.''), (''tips'', [])]"
  have unmatched: "\<forall>kw \<in> set section_keywords. \<not> is_substring kw (lower (get_text ?history))"
    by code_simp
  have sec: "''food'' \<noteq> []" by simp
  have old: "map_of ?info ''food'' = Some ''Pasta.''" by simp
  have after: "setitem ?info ''food'' (''Pasta.'' @ join '' '' (section_loop (find_next_sibling ?sibs) []))
      = [(''overview'', []), (''attractions'', []), (''transportation'', []),
         (''food'', ''Pasta.Old town.''), (''tips'', [])]"
    by code_simp
  have step: "headings_loop [(?history, ?sibs)] (Some ''food'') ?info
      = Inr [(''overview'', []), (''attractions'', []), (''transportation'', []),
             (''food'', ''Pasta.Old town.''), (''tips'', [])]"
    using unmatched_heading_falls_through [OF unmatched sec old, of None ?sibs "[]"]
    unfolding after by simp
  have page: "scrape_content (Tag ''div'' [(''id'', ''mw-content-text'')]
        [Tag ''h2'' [] [Text ''Eat''], Tag ''p'' [] [Text ''Pasta.''],
         Tag ''h2'' [] [Text ''History''], Tag ''p'' [] [Text ''Old town.'']])
       = Inr [(''overview'', ''Pasta.''), (''attractions'', []), (''transportation'', []),
              (''food'', ''Pasta.Old town.''), (''tips'', [])]"
    by code_simp
  have each: "\<not> is_substring ''see'' (lower (get_text ?history))"
    "\<not> is_substring ''sight'' (lower (get_text ?history))"
    "\<not> is_substring ''get around'' (lower (get_text ?history))"
    "\<not> is_substring ''transport'' (lower (get_text ?history))"
    "\<not> is_substring ''eat'' (lower (get_text ?history))"
    "\<not> is_substring ''food'' (lower (get_text ?history))"
    "\<not> is_substring ''understand'' (lower (get_text ?history))"
    "\<not> is_substring ''tips'' (lower (get_text ?history))"
    using unmatched by (simp_all add: section_keywords_def)
  from each sec old step page show ?thesis by blast
qed

text \<open>
  Claim C10. When two headings in document order map to the same bucket, such as "See" and
  then "Sights" for the attractions, the joined paragraph text of the second is appended
  directly to that of the first, with no separator between the two runs. In general, for
  each of the four section buckets, the value returned is the plain concatenation, in
  document order, of the joined paragraph texts of the headings that went to this bucket.
\<close>

theorem bucket_is_concatenation_of_runs:
  assumes "fetch (page_url destination) = Inr soup"
    and "find_first is_content_div soup = Some (content, after)"
    and "k \<in> section_names"
  shows "\<exists>info. scrape_destination_info fetch destination = ([], Some info)
           \<and> map_of info k
               = Some (concat (map snd (filter (\<lambda>run. fst run = k)
                    (section_runs (find_all is_heading (children content)) None))))"
proof -
  from scrape_content_result [of content] obtain info where
    info: "scrape_content content = Inr info" by blast
  then have loop: "headings_loop (find_all is_heading (children content)) None
      (setitem initial_info ''overview''
         (join '' '' (intro_loop (find_first is_paragraph (children content)) []))) = Inr info"
    by (simp add: scrape_content_def Let_def)
  have "map_of (setitem initial_info ''overview''
         (join '' '' (intro_loop (find_first is_paragraph (children content)) []))) k = Some []"
    using assms(3) by (auto simp: map_of_setitem initial_info_def section_names_def)
  with headings_loop_buckets [OF loop, of k] have
    "map_of info k = Some (concat (map snd (filter (\<lambda>run. fst run = k)
        (section_runs (find_all is_heading (children content)) None))))"
    by simp
  with info assms(1,2) show ?thesis
    by (simp add: scrape_destination_info_def)
qed

theorem bucket_is_concatenation_of_runs_witness:
  "serving [Tag ''div'' [(''id'', ''mw-content-text'')]
       [Tag ''h2'' [] [Text ''See''], Tag ''p'' [] [Text ''A''], Tag ''p'' [] [Text ''B''],
        Tag ''h2'' [] [Text ''Sights''], Tag ''p'' [] [Text ''C'']]] (page_url ''Rome'')
     = Inr [Tag ''div'' [(''id'', ''mw-content-text'')]
       [Tag ''h2'' [] [Text ''See''], Tag ''p'' [] [Text ''A''], Tag ''p'' [] [Text ''B''],
        Tag ''h2'' [] [Text ''Sights''], Tag ''p'' [] [Text ''C'']]]
   \<and> find_first is_content_div [Tag ''div'' [(''id'', ''mw-content-text'')]
       [Tag ''h2'' [] [Text ''See''], Tag ''p'' [] [Text ''A''], Tag ''p'' [] [Text ''B''],
        Tag ''h2'' [] [Text ''Sights''], Tag ''p'' [] [Text ''C'']]]
     = Some (Tag ''div'' [(''id'', ''mw-content-text'')]
       [Tag ''h2'' [] [Text ''See''], Tag ''p'' [] [Text ''A''], Tag ''p'' [] [Text ''B''],
        Tag ''h2'' [] [Text ''Sights''], Tag ''p'' [] [Text ''C'']], [])
   \<and> ''attractions'' \<in> section_names
   \<and> section_runs (find_all is_heading
       [Tag ''h2'' [] [Text ''See''], Tag ''p'' [] [Text ''A''], Tag ''p'' [] [Text ''B''],
        Tag ''h2'' [] [Text ''Sights''], Tag ''p'' [] [Text ''C'']]) None
     = [(''attractions'', ''A B''), (''attractions'', ''C'')]
   \<and> (\<exists>info. scrape_destination_info (serving [Tag ''div'' [(''id'', ''mw-content-text'')]
       [Tag ''h2'' [] [Text ''See''], Tag ''p'' [] [Text ''A''], Tag ''p'' [] [Text ''B''],
        Tag ''h2'' [] [Text ''Sights''], Tag ''p'' [] [Text ''C'']]]) ''Rome'' = ([], Some info)
        \<and> map_of info ''attractions'' = Some ''A BC'')"
proof -
  let ?kids = "[Tag ''h2'' [] [Text ''See''], Tag ''p'' [] [Text ''A''], Tag ''p'' [] [Text ''B''],
        Tag ''h2'' [] [Text ''Sights''], Tag ''p'' [] [Text ''C'']]"
  let ?content = "Tag ''div'' [(''id'', ''mw-content-text'')] ?kids"
  have fetched: "serving [?content] (page_url ''Rome'') = Inr [?content]"
    by (simp add: serving_def)
  have found: "find_first is_content_div [?content] = Some (?content, [])"
    by code_simp
  have key: "''attractions'' \<in> section_names"
    by (simp add: section_names_def)
  have runs: "section_runs (find_all is_heading ?kids) None
      = [(''attractions'', ''A B''), (''attractions'', ''C'')]"
    by code_simp
  have runs': "section_runs (find_all is_heading (children ?content)) None
      = [(''attractions'', ''A B''), (''attractions'', ''C'')]"
    by code_simp
  have "\<exists>info. scrape_destination_info (serving [?content]) ''Rome'' = ([], Some info)
        \<and> map_of info ''attractions'' = Some ''A BC''"
    using bucket_is_concatenation_of_runs
            [where fetch = "serving [?content]" and destination = "''Rome''",
             OF fetched found key]
    unfolding runs' by simp
  with fetched found key runs show ?thesis by blast
qed

section \<open>The renderer on a mapping\<close>

text \<open>Each part of the renderer, on a dictionary, by the value of its key.\<close>

lemma lookup_if_present:
  "and_then (py_in k (JObj gd))
     (\<lambda>present. if present then and_then (getitem (JObj gd) k) f else Inr md)
   = (case map_of gd k of None \<Rightarrow> Inr md | Some v \<Rightarrow> f v)"
proof (cases "map_of gd k")
  case None
  then have "k \<notin> set (map fst gd)" by (simp add: map_of_eq_None_iff)
  with None show ?thesis by simp
next
  case (Some v)
  then have "k \<in> set (map fst gd)" by (metis map_of_eq_None_iff option.distinct(1) set_map)
  with Some show ?thesis by simp
qed

lemma items_loop_shift: "items_loop kvs (md @ s) = md @ items_loop kvs s"
proof (induction kvs arbitrary: s)
  case Nil
  then show ?case by simp
next
  case (Cons kv kvs)
  obtain k v where kv: "kv = (k, v)" by (cases kv)
  show ?case
    using Cons.IH [of "s @ ''### '' @ k @ ''\<newline>'' @ py_str v @ ''\<newline>\<newline>''"]
    by (simp add: kv)
qed

lemma dining_loop_shift: "dining_loop xs (md @ s) = md @ dining_loop xs s"
proof (induction xs arbitrary: s)
  case Nil
  then show ?case by simp
next
  case (Cons item xs)
  show ?case
  proof (cases item)
    case (JObj kvs)
    then show ?thesis
      using Cons.IH [of "items_loop kvs s"] by (simp add: items_loop_shift)
  qed (use Cons.IH [of "s @ ''- '' @ py_str item @ ''\<newline>''"] in simp_all)
qed

lemma tips_loop_shift: "tips_loop xs (md @ s) = md @ tips_loop xs s"
proof (induction xs arbitrary: s)
  case Nil
  then show ?case by simp
next
  case (Cons tip xs)
  show ?case
    using Cons.IH [of "s @ ''- '' @ py_str tip @ ''\<newline>''"] by simp
qed

lemma overview_section_obj:
  "overview_section (JObj gd) md =
     (case map_of gd ''overview'' of
        None \<Rightarrow> Inr md
      | Some v \<Rightarrow> Inr (md @ ''## Overview\<newline>\<newline>'' @ py_str v @ ''\<newline>\<newline>''))"
  by (simp only: overview_section_def lookup_if_present)

lemma attractions_section_obj:
  "attractions_section (JObj gd) md =
     (case map_of gd ''attractions'' of
        None \<Rightarrow> Inr md
      | Some v \<Rightarrow>
          (case v of
             JList xs \<Rightarrow> attractions_loop xs (md @ ''## Must-See Attractions\<newline>\<newline>'')
           | _ \<Rightarrow> Inr (md @ ''## Must-See Attractions\<newline>\<newline>'' @ py_str v @ ''\<newline>\<newline>'')))"
  by (simp only: attractions_section_def lookup_if_present)

lemma transportation_section_obj:
  "transportation_section (JObj gd) md =
     (case map_of gd ''transportation'' of
        None \<Rightarrow> Inr md
      | Some v \<Rightarrow>
          (case v of
             JObj kvs \<Rightarrow> Inr (items_loop kvs (md @ ''## Getting Around\<newline>\<newline>''))
           | _ \<Rightarrow> Inr (md @ ''## Getting Around\<newline>\<newline>'' @ py_str v @ ''\<newline>\<newline>'')))"
  by (simp only: transportation_section_def lookup_if_present)

lemma food_section_obj:
  "food_section (JObj gd) md =
     (case map_of gd ''food_and_dining'' of
        None \<Rightarrow> Inr md
      | Some v \<Rightarrow>
          (case v of
             JList xs \<Rightarrow> Inr (dining_loop xs (md @ ''## Food & Dining\<newline>\<newline>''))
           | _ \<Rightarrow> Inr (md @ ''## Food & Dining\<newline>\<newline>'' @ py_str v @ ''\<newline>\<newline>'')))"
  by (simp only: food_section_def lookup_if_present)

lemma tips_section_obj:
  "tips_section (JObj gd) md =
     (case map_of gd ''tips'' of
        None \<Rightarrow> Inr md
      | Some v \<Rightarrow>
          (case v of
             JList xs \<Rightarrow> Inr (tips_loop xs (md @ ''## Practical Tips\<newline>\<newline>''))
           | _ \<Rightarrow> Inr (md @ ''## Practical Tips\<newline>\<newline>'' @ py_str v @ ''\<newline>\<newline>'')))"
  by (simp only: tips_section_def lookup_if_present)

lemma overview_section_extends: "\<exists>s. overview_section (JObj gd) md = Inr (md @ s)"
  by (cases "map_of gd ''overview''") (simp_all only: overview_section_obj option.case, auto)

lemma items_branch_extends:
  "\<exists>s. (case v of JObj kvs \<Rightarrow> Inr (items_loop kvs (md @ h)) | _ \<Rightarrow> Inr (md @ h @ py_str v @ t))
        = (Inr (md @ s) :: error + string)"
  by (cases v) (simp_all add: items_loop_shift)

lemma dining_branch_extends:
  "\<exists>s. (case v of JList xs \<Rightarrow> Inr (dining_loop xs (md @ h)) | _ \<Rightarrow> Inr (md @ h @ py_str v @ t))
        = (Inr (md @ s) :: error + string)"
  by (cases v) (simp_all add: dining_loop_shift)

lemma tips_branch_extends:
  "\<exists>s. (case v of JList xs \<Rightarrow> Inr (tips_loop xs (md @ h)) | _ \<Rightarrow> Inr (md @ h @ py_str v @ t))
        = (Inr (md @ s) :: error + string)"
  by (cases v) (simp_all add: tips_loop_shift)

lemma transportation_section_extends: "\<exists>s. transportation_section (JObj gd) md = Inr (md @ s)"
proof (cases "map_of gd ''transportation''")
  case None
  then show ?thesis by (simp only: transportation_section_obj option.case) auto
next
  case (Some v)
  then show ?thesis
    by (simp only: transportation_section_obj option.case) (rule items_branch_extends)
qed

lemma food_section_extends: "\<exists>s. food_section (JObj gd) md = Inr (md @ s)"
proof (cases "map_of gd ''food_and_dining''")
  case None
  then show ?thesis by (simp only: food_section_obj option.case) auto
next
  case (Some v)
  then show ?thesis
    by (simp only: food_section_obj option.case) (rule dining_branch_extends)
qed

lemma tips_section_extends: "\<exists>s. tips_section (JObj gd) md = Inr (md @ s)"
proof (cases "map_of gd ''tips''")
  case None
  then show ?thesis by (simp only: tips_section_obj option.case) auto
next
  case (Some v)
  then show ?thesis
    by (simp only: tips_section_obj option.case) (rule tips_branch_extends)
qed

lemma format_guide_sections:
  "format_guide guide_data destination =
     run_sections guide_sections guide_data (''# Travel Guide: '' @ destination @ ''\<newline>\<newline>'')"
  by (simp add: format_guide_def guide_sections_def and_then_def split: sum.splits)


lemma getitem_present: "k \<in> set (map fst kvs) \<Longrightarrow> \<exists>v. getitem (JObj kvs) k = Inr v"
proof (cases "map_of kvs k")
  case None
  moreover assume "k \<in> set (map fst kvs)"
  ultimately show ?thesis by (simp add: map_of_eq_None_iff)
next
  case (Some v)
  then show ?thesis by simp
qed

lemma getitem_absent: "k \<notin> set (map fst kvs) \<Longrightarrow> getitem (JObj kvs) k = Inl (KeyError k)"
proof -
  assume "k \<notin> set (map fst kvs)"
  then have "map_of kvs k = None" by (simp add: map_of_eq_None_iff)
  then show ?thesis by simp
qed

lemma labelled_getitem:
  "labelled a \<Longrightarrow> \<exists>n d. getitem a ''name'' = Inr n \<and> getitem a ''description'' = Inr d"
proof (cases a)
  case (JObj kvs)
  moreover assume "labelled a"
  ultimately have "''name'' \<in> set (map fst kvs)" "''description'' \<in> set (map fst kvs)"
    by simp_all
  from getitem_present [OF this(1)] getitem_present [OF this(2)] show ?thesis
    unfolding JObj by blast
qed simp_all

lemma unlabelled_getitem:
  "\<not> labelled a \<Longrightarrow>
     (\<exists>e. getitem a ''name'' = Inl e)
     \<or> (\<exists>n e. getitem a ''name'' = Inr n \<and> getitem a ''description'' = Inl e)"
proof (cases a)
  case (JObj kvs)
  moreover assume "\<not> labelled a"
  ultimately consider "''name'' \<notin> set (map fst kvs)"
    | "''name'' \<in> set (map fst kvs)" "''description'' \<notin> set (map fst kvs)"
    by auto
  then show ?thesis
  proof cases
    case 1
    from getitem_absent [OF this] show ?thesis unfolding JObj by blast
  next
    case 2
    from getitem_present [OF 2(1)] getitem_absent [OF 2(2)] show ?thesis
      unfolding JObj by blast
  qed
qed simp_all

lemma attractions_loop_labelled:
  "list_all labelled xs \<Longrightarrow> \<exists>s. attractions_loop xs md = Inr (md @ s)"
proof (induction xs arbitrary: md)
  case Nil
  then show ?case by simp
next
  case (Cons a xs)
  then have "labelled a" and rest: "list_all labelled xs" by simp_all
  from labelled_getitem [OF this(1)] obtain n d where
    nd: "getitem a ''name'' = Inr n" "getitem a ''description'' = Inr d" by blast
  define line where "line = ''### '' @ py_str n @ ''\<newline>'' @ py_str d @ ''\<newline>\<newline>''"
  have step: "attractions_loop (a # xs) md = attractions_loop xs (md @ line)"
    by (simp add: nd line_def)
  from Cons.IH [OF rest, of "md @ line"] obtain s where
    "attractions_loop xs (md @ line) = Inr (md @ line @ s)" by auto
  with step show ?case by auto
qed

lemma attractions_loop_unlabelled:
  "\<not> list_all labelled xs \<Longrightarrow> \<exists>e. attractions_loop xs md = Inl e"
proof (induction xs arbitrary: md)
  case Nil
  then show ?case by simp
next
  case (Cons a xs)
  show ?case
  proof (cases "labelled a")
    case True
    from labelled_getitem [OF this] obtain n d where
      nd: "getitem a ''name'' = Inr n" "getitem a ''description'' = Inr d" by blast
    define line where "line = ''### '' @ py_str n @ ''\<newline>'' @ py_str d @ ''\<newline>\<newline>''"
    have step: "attractions_loop (a # xs) md = attractions_loop xs (md @ line)"
      by (simp add: nd line_def)
    from Cons.prems True have "\<not> list_all labelled xs" by simp
    from Cons.IH [OF this, of "md @ line"] step show ?thesis by simp
  next
    case False
    from unlabelled_getitem [OF this] show ?thesis
      by (elim disjE exE conjE) simp_all
  qed
qed

text \<open>On a mapping, the renderer raises exactly when the attractions are a list with an
  element that is no mapping with a name and a description.\<close>

lemma format_guide_raises_iff:
  "(\<exists>e. format_guide (JObj gd) destination = Inl e)
     \<longleftrightarrow> (\<exists>xs. map_of gd ''attractions'' = Some (JList xs) \<and> \<not> list_all labelled xs)"
proof -
  define title where "title = ''# Travel Guide: '' @ destination @ ''\<newline>\<newline>''"
  have fg: "format_guide (JObj gd) destination =
      and_then (overview_section (JObj gd) title)
        (\<lambda>md. and_then (attractions_section (JObj gd) md)
          (\<lambda>md. and_then (transportation_section (JObj gd) md)
            (\<lambda>md. and_then (food_section (JObj gd) md)
              (\<lambda>md. tips_section (JObj gd) md))))"
    by (simp add: format_guide_def title_def)
  obtain s1 where s1: "overview_section (JObj gd) title = Inr (title @ s1)"
    using overview_section_extends by blast
  let ?md = "title @ s1"
  have rest: "\<exists>doc. and_then (transportation_section (JObj gd) md)
         (\<lambda>md. and_then (food_section (JObj gd) md) (\<lambda>md. tips_section (JObj gd) md)) = Inr doc" for md
  proof -
    obtain a where "transportation_section (JObj gd) md = Inr (md @ a)"
      using transportation_section_extends by blast
    moreover obtain b where "food_section (JObj gd) (md @ a) = Inr ((md @ a) @ b)"
      using food_section_extends by blast
    moreover obtain c where "tips_section (JObj gd) ((md @ a) @ b) = Inr (((md @ a) @ b) @ c)"
      using tips_section_extends by blast
    ultimately show ?thesis by simp
  qed
  have "(\<exists>e. format_guide (JObj gd) destination = Inl e)
      \<longleftrightarrow> (\<exists>e. attractions_section (JObj gd) ?md = Inl e)"
  proof (cases "attractions_section (JObj gd) ?md")
    case (Inl e)
    then show ?thesis by (simp add: fg s1)
  next
    case (Inr md)
    with rest [of md] show ?thesis by (auto simp: fg s1)
  qed
  also have "\<dots> \<longleftrightarrow> (\<exists>xs. map_of gd ''attractions'' = Some (JList xs) \<and> \<not> list_all labelled xs)"
  proof (cases "map_of gd ''attractions''")
    case None
    then show ?thesis by (simp add: attractions_section_obj)
  next
    case (Some v)
    show ?thesis
    proof (cases v)
      case (JList xs)
      show ?thesis
      proof (cases "list_all labelled xs")
        case True
        from attractions_loop_labelled [OF this] show ?thesis
          using True Some JList by (auto simp: attractions_section_obj) (metis sum.distinct(1))
      next
        case False
        from attractions_loop_unlabelled [OF this] show ?thesis
          using False Some JList by (auto simp: attractions_section_obj)
      qed
    qed (simp_all add: attractions_section_obj Some)
  qed
  finally show ?thesis .
qed

section \<open>Properties of the renderer\<close>

text \<open>
  Claim C8. For every guide whose five values are plain strings, \<^verbatim>\<open>format_guide\<close> emits the
  title line and then the section headers "Overview", "Must-See Attractions", "Getting
  Around", "Food & Dining" and "Practical Tips" in this order, each followed by the string
  under its key as it is.
\<close>

theorem plain_strings_render_in_order:
  assumes "map_of gd ''overview'' = Some (JStr overview)"
    and "map_of gd ''attractions'' = Some (JStr attractions)"
    and "map_of gd ''transportation'' = Some (JStr transportation)"
    and "map_of gd ''food_and_dining'' = Some (JStr food_and_dining)"
    and "map_of gd ''tips'' = Some (JStr tips)"
  shows "format_guide (JObj gd) destination =
     Inr (''# Travel Guide: '' @ destination @ ''\<newline>\<newline>''
          @ ''## Overview\<newline>\<newline>'' @ overview @ ''\<newline>\<newline>''
          @ ''## Must-See Attractions\<newline>\<newline>'' @ attractions @ ''\<newline>\<newline>''
          @ ''## Getting Around\<newline>\<newline>'' @ transportation @ ''\<newline>\<newline>''
          @ ''## Food & Dining\<newline>\<newline>'' @ food_and_dining @ ''\<newline>\<newline>''
          @ ''## Practical Tips\<newline>\<newline>'' @ tips @ ''\<newline>\<newline>'')"
  using assms
  by (simp add: format_guide_def overview_section_obj attractions_section_obj
      transportation_section_obj food_section_obj tips_section_obj)

theorem plain_strings_render_in_order_witness:
  "map_of [(''overview'', JStr ''X is great.''), (''attractions'', JStr ''1. Tower''),
           (''transportation'', JStr ''Metro''), (''food_and_dining'', JStr ''Cafes''),
           (''tips'', JStr ''Be safe'')] ''overview'' = Some (JStr ''X is great.'')
   \<and> map_of [(''overview'', JStr ''X is great.''), (''attractions'', JStr ''1. Tower''),
           (''transportation'', JStr ''Metro''), (''food_and_dining'', JStr ''Cafes''),
           (''tips'', JStr ''Be safe'')] ''attractions'' = Some (JStr ''1. Tower'')
   \<and> map_of [(''overview'', JStr ''X is great.''), (''attractions'', JStr ''1. Tower''),
           (''transportation'', JStr ''Metro''), (''food_and_dining'', JStr ''Cafes''),
           (''tips'', JStr ''Be safe'')] ''transportation'' = Some (JStr ''Metro'')
   \<and> map_of [(''overview'', JStr ''X is great.''), (''attractions'', JStr ''1. Tower''),
           (''transportation'', JStr ''Metro''), (''food_and_dining'', JStr ''Cafes''),
           (''tips'', JStr ''Be safe'')] ''food_and_dining'' = Some (JStr ''Cafes'')
   \<and> map_of [(''overview'', JStr ''X is great.''), (''attractions'', JStr ''1. Tower''),
           (''transportation'', JStr ''Metro''), (''food_and_dining'', JStr ''Cafes''),
           (''tips'', JStr ''Be safe'')] ''tips'' = Some (JStr ''Be safe'')
   \<and> format_guide (JObj [(''overview'', JStr ''X is great.''), (''attractions'', JStr ''1. Tower''),
           (''transportation'', JStr ''Metro''), (''food_and_dining'', JStr ''Cafes''),
           (''tips'', JStr ''Be safe'')]) ''X''
       = Inr (''# Travel Guide: X\<newline>\<newline>''
              @ ''## Overview\<newline>\<newline>X is great.\<newline>\<newline>''
              @ ''## Must-See Attractions\<newline>\<newline>1. Tower\<newline>\<newline>''
              @ ''## Getting Around\<newline>\<newline>Metro\<newline>\<newline>''
              @ ''## Food & Dining\<newline>\<newline>Cafes\<newline>\<newline>''
              @ ''## Practical Tips\<newline>\<newline>Be safe\<newline>\<newline>'')"
proof -
  let ?gd = "[(''overview'', JStr ''X is great.''), (''attractions'', JStr ''1. Tower''),
           (''transportation'', JStr ''Metro''), (''food_and_dining'', JStr ''Cafes''),
           (''tips'', JStr ''Be safe'')]"
  have k1: "map_of ?gd ''overview'' = Some (JStr ''X is great.'')" by simp
  have k2: "map_of ?gd ''attractions'' = Some (JStr ''1. Tower'')" by simp
  have k3: "map_of ?gd ''transportation'' = Some (JStr ''Metro'')" by simp
  have k4: "map_of ?gd ''food_and_dining'' = Some (JStr ''Cafes'')" by simp
  have k5: "map_of ?gd ''tips'' = Some (JStr ''Be safe'')" by simp
  have "format_guide (JObj ?gd) ''X''
       = Inr (''# Travel Guide: X\<newline>\<newline>''
              @ ''## Overview\<newline>\<newline>X is great.\<newline>\<newline>''
              @ ''## Must-See Attractions\<newline>\<newline>1. Tower\<newline>\<newline>''
              @ ''## Getting Around\<newline>\<newline>Metro\<newline>\<newline>''
              @ ''## Food & Dining\<newline>\<newline>Cafes\<newline>\<newline>''
              @ ''## Practical Tips\<newline>\<newline>Be safe\<newline>\<newline>'')"
    using plain_strings_render_in_order [OF k1 k2 k3 k4 k5, of "''X''"] by simp
  with k1 k2 k3 k4 k5 show ?thesis by blast
qed

text \<open>The loop over the entries of a mapping writes one block per entry, in the order of the
  mapping: the key as a sub-heading, the value as \<^verbatim>\<open>str\<close> prints it, a blank line.\<close>

lemma items_loop_blocks:
  "items_loop kvs md =
     md @ concat (map (\<lambda>(k, v). ''### '' @ k @ ''\<newline>'' @ py_str v @ ''\<newline>\<newline>'') kvs)"
proof (induction kvs arbitrary: md)
  case Nil
  then show ?case by simp
next
  case (Cons kv kvs)
  obtain k v where kv: "kv = (k, v)" by (cases kv)
  show ?case
    using Cons.IH [of "md @ ''### '' @ k @ ''\<newline>'' @ py_str v @ ''\<newline>\<newline>''"]
    by (simp add: kv)
qed

text \<open>
  The transportation branch taken alone. On a list it appends the header, then the list as
  \<^verbatim>\<open>str\<close> prints it (brackets around the \<^verbatim>\<open>repr\<close> of the elements, separated by a comma
  and a space), then a blank line, with no rendering per element. It raises for no value.
  A mapping is what it renders entry by entry. In every document that the renderer
  returns, the paragraph of the list stands where the branch has put it.
\<close>

lemma transportation_branch_renders:
  assumes "map_of gd ''transportation'' = Some (JList xs)"
  shows "transportation_section (JObj gd) md
           = Inr (md @ ''## Getting Around\<newline>\<newline>''
                  @ ''['' @ join '', '' (repr_items xs) @ '']'' @ ''\<newline>\<newline>'')
       \<and> (\<exists>out. transportation_section (JObj any) md = Inr out)
       \<and> transportation_section (JObj ((''transportation'', JObj kvs) # others)) md
           = Inr (md @ ''## Getting Around\<newline>\<newline>''
                  @ concat (map (\<lambda>(k, v). ''### '' @ k @ ''\<newline>'' @ py_str v @ ''\<newline>\<newline>'') kvs))
       \<and> (format_guide (JObj gd) destination = Inr doc \<longrightarrow>
            (\<exists>before after. doc = before @ ''## Getting Around\<newline>\<newline>''
                @ ''['' @ join '', '' (repr_items xs) @ '']'' @ ''\<newline>\<newline>'' @ after))"
proof -
  define title where "title = ''# Travel Guide: '' @ destination @ ''\<newline>\<newline>''"
  define para where "para = ''## Getting Around\<newline>\<newline>''
                  @ ''['' @ join '', '' (repr_items xs) @ '']'' @ ''\<newline>\<newline>''"
  define blocks where
    "blocks = concat (map (\<lambda>(k, v). ''### '' @ k @ ''\<newline>'' @ py_str v @ ''\<newline>\<newline>'') kvs)"
  have branch: "transportation_section (JObj gd) md = Inr (md @ para)" for md
    using assms by (simp add: transportation_section_obj para_def)
  have total: "\<exists>out. transportation_section (JObj any) md = Inr out"
    using transportation_section_extends by blast
  have doc: "\<exists>before after. doc = before @ para @ after"
    if ok: "format_guide (JObj gd) destination = Inr doc"
  proof -
    have fg: "format_guide (JObj gd) destination =
      and_then (overview_section (JObj gd) title)
        (\<lambda>md. and_then (attractions_section (JObj gd) md)
          (\<lambda>md. and_then (transportation_section (JObj gd) md)
            (\<lambda>md. and_then (food_section (JObj gd) md)
              (\<lambda>md. tips_section (JObj gd) md))))"
      by (simp add: format_guide_def title_def)
    obtain md1 where md1: "overview_section (JObj gd) title = Inr md1"
      using overview_section_extends by blast
    from ok obtain md2 where md2: "attractions_section (JObj gd) md1 = Inr md2"
      by (cases "attractions_section (JObj gd) md1") (simp_all add: fg md1)
    obtain b where b: "food_section (JObj gd) (md2 @ para) = Inr (md2 @ para @ b)"
      using food_section_extends [of gd "md2 @ para"] by auto
    obtain c where c: "tips_section (JObj gd) (md2 @ para @ b) = Inr (md2 @ para @ b @ c)"
      using tips_section_extends [of gd "md2 @ para @ b"] by auto
    from ok have "doc = md2 @ para @ (b @ c)"
      by (simp add: fg md1 md2 branch b c)
    then show ?thesis by blast
  qed
  have "items_loop kvs (md @ ''## Getting Around\<newline>\<newline>'')
      = (md @ ''## Getting Around\<newline>\<newline>'') @ blocks"
    unfolding blocks_def by (rule items_loop_blocks)
  then have mapping: "transportation_section (JObj ((''transportation'', JObj kvs) # others)) md
           = Inr (md @ ''## Getting Around\<newline>\<newline>'' @ blocks)"
    by (simp add: transportation_section_obj)
  from branch [of md] total mapping doc show ?thesis
    unfolding para_def blocks_def append_assoc by blast
qed

text \<open>
  Claim C9. For every guide whose transportation value is a list, \<^verbatim>\<open>format_guide\<close> renders
  the textual form of the whole list as one paragraph under "Getting Around", with no
  rendering per element, and the transportation branch raises for no value; only mappings
  get a sub-block per entry. The transportation branch does all of this, as the second and
  the third guide below show and lemma \<open>transportation_branch_renders\<close> proves in general.
  But \<^verbatim>\<open>format_guide\<close> as a whole does not: the attractions branch comes first, and on a list
  of strings it raises before the transportation branch is reached, so that on the first
  guide below, whose transportation value is a list, nothing is rendered at all. The dining
  and the tips branch, which also loop over a list, look at each element first or print it
  as it is.
\<close>

theorem transportation_list_lost_when_attractions_raise:
  "format_guide
     (JObj [(''overview'', JStr ''A city.''),
            (''attractions'', JList [JStr ''Louvre'']),
            (''transportation'', JList [JStr ''Bus'', JStr ''Metro'']),
            (''food_and_dining'', JStr ''Cafes''),
            (''tips'', JStr ''Be safe'')])
     ''Paris''
     = Inl TypeError
   \<and> format_guide
     (JObj [(''overview'', JStr ''A city.''),
            (''attractions'', JStr ''Louvre''),
            (''transportation'', JList [JStr ''Bus'', JStr ''Metro'']),
            (''food_and_dining'', JStr ''Cafes''),
            (''tips'', JStr ''Be safe'')])
     ''Paris''
     = Inr (''# Travel Guide: Paris\<newline>\<newline>## Overview\<newline>\<newline>A city.\<newline>\<newline>''
            @ ''## Must-See Attractions\<newline>\<newline>Louvre\<newline>\<newline>''
            @ ''## Getting Around\<newline>\<newline>['' @ [CHR 0x27] @ ''Bus'' @ [CHR 0x27] @ '', ''
            @ [CHR 0x27] @ ''Metro'' @ [CHR 0x27] @ '']\<newline>\<newline>''
            @ ''## Food & Dining\<newline>\<newline>Cafes\<newline>\<newline>''
            @ ''## Practical Tips\<newline>\<newline>Be safe\<newline>\<newline>'')
   \<and> format_guide
     (JObj [(''transportation'', JObj [(''Bus'', JStr ''Cheap''), (''Metro'', JStr ''Fast'')])])
     ''Paris''
     = Inr (''# Travel Guide: Paris\<newline>\<newline>## Getting Around\<newline>\<newline>''
            @ ''### Bus\<newline>Cheap\<newline>\<newline>### Metro\<newline>Fast\<newline>\<newline>'')"
  by code_simp

text \<open>Renderers that leave the text as it is can be taken out of a chain.\<close>

lemma run_sections_skip:
  assumes "\<And>r md. (k, r) \<in> set sections \<Longrightarrow> r g md = Inr md"
  shows "run_sections (filter (\<lambda>entry. fst entry \<noteq> k) sections) g md
           = run_sections sections g md"
  using assms
proof (induction sections arbitrary: md)
  case Nil
  then show ?case by simp
next
  case (Cons entry sections)
  obtain k' r where entry: "entry = (k', r)" by (cases entry)
  have rest: "run_sections (filter (\<lambda>entry. fst entry \<noteq> k) sections) g md
      = run_sections sections g md" for md
    using Cons.IH Cons.prems by simp
  show ?case
  proof (cases "k' = k")
    case True
    with Cons.prems [of r md] entry have "r g md = Inr md" by simp
    with True entry rest show ?thesis by simp
  next
    case False
    with entry rest show ?thesis by (simp add: and_then_def split: sum.splits)
  qed
qed

text \<open>
  Claim C6, as stated: for every guide mapping without the key "tips", the document that
  \<^verbatim>\<open>format_guide\<close> returns contains no "Practical Tips" section header. The renderer copies
  the values into the document as they are, so the header's text can come from another
  value: here the guide has no "tips" key and the overview is the text of the header, and
  the document returned has the line of the header, blank line included, just as the tips
  branch would have written it.
\<close>

theorem no_tips_header_counterexample:
  "py_in ''tips'' (JObj [(''overview'', JStr ''## Practical Tips'')]) = Inr False
   \<and> format_guide (JObj [(''overview'', JStr ''## Practical Tips'')]) ''X''
       = Inr ''# Travel Guide: X\<newline>\<newline>## Overview\<newline>\<newline>## Practical Tips\<newline>\<newline>''
   \<and> is_substring ''## Practical Tips\<newline>\<newline>''
         ''# Travel Guide: X\<newline>\<newline>## Overview\<newline>\<newline>## Practical Tips\<newline>\<newline>''"
  by code_simp

text \<open>
  Claim C6, amended: for every guide mapping in which one of the five guide keys is absent,
  \<^verbatim>\<open>format_guide\<close> appends nothing for that key, neither header nor body: the part of the
  renderer for this key returns the text unchanged, and the document is what the parts for
  the other keys produce from the title line. So without "tips" a "Practical Tips" header
  is in the document only if the destination or the rendering of another key's value has
  that text.
\<close>

theorem absent_key_renders_nothing:
  assumes "(k, render) \<in> set guide_sections"
    and "k \<notin> set (map fst gd)"
  shows "render (JObj gd) md = Inr md
       \<and> format_guide (JObj gd) destination
           = run_sections (filter (\<lambda>entry. fst entry \<noteq> k) guide_sections) (JObj gd)
               (''# Travel Guide: '' @ destination @ ''\<newline>\<newline>'')"
proof -
  from assms(2) have absent: "map_of gd k = None"
    by (simp add: map_of_eq_None_iff)
  have unchanged: "r (JObj gd) md = Inr md" if "(k, r) \<in> set guide_sections" for r md
  proof -
    from that have
      "(k = ''overview'' \<and> r = overview_section)
       \<or> (k = ''attractions'' \<and> r = attractions_section)
       \<or> (k = ''transportation'' \<and> r = transportation_section)
       \<or> (k = ''food_and_dining'' \<and> r = food_section)
       \<or> (k = ''tips'' \<and> r = tips_section)"
      by (simp add: guide_sections_def)
    then show ?thesis
    proof (elim disjE conjE)
      assume "k = ''overview''" "r = overview_section"
      with absent show ?thesis by (simp only: overview_section_obj option.case)
    next
      assume "k = ''attractions''" "r = attractions_section"
      with absent show ?thesis by (simp only: attractions_section_obj option.case)
    next
      assume "k = ''transportation''" "r = transportation_section"
      with absent show ?thesis by (simp only: transportation_section_obj option.case)
    next
      assume "k = ''food_and_dining''" "r = food_section"
      with absent show ?thesis by (simp only: food_section_obj option.case)
    next
      assume "k = ''tips''" "r = tips_section"
      with absent show ?thesis by (simp only: tips_section_obj option.case)
    qed
  qed
  have "run_sections (filter (\<lambda>entry. fst entry \<noteq> k) guide_sections) (JObj gd) md
      = run_sections guide_sections (JObj gd) md" for md
    by (rule run_sections_skip) (rule unchanged)
  with unchanged [OF assms(1), of md] show ?thesis
    by (simp only: format_guide_sections)
qed

theorem absent_key_renders_nothing_witness:
  "(''tips'', tips_section) \<in> set guide_sections
   \<and> ''tips'' \<notin> set (map fst [(''overview'', JStr ''A city.''), (''food_and_dining'', JStr ''Cafes'')])
   \<and> tips_section (JObj [(''overview'', JStr ''A city.''), (''food_and_dining'', JStr ''Cafes'')])
        ''# Travel Guide: X\<newline>\<newline>'' = Inr ''# Travel Guide: X\<newline>\<newline>''
   \<and> format_guide (JObj [(''overview'', JStr ''A city.''), (''food_and_dining'', JStr ''Cafes'')]) ''X''
       = Inr ''# Travel Guide: X\<newline>\<newline>## Overview\<newline>\<newline>A city.\<newline>\<newline>## Food & Dining\<newline>\<newline>Cafes\<newline>\<newline>''
   \<and> \<not> is_substring ''Practical Tips''
         ''# Travel Guide: X\<newline>\<newline>## Overview\<newline>\<newline>A city.\<newline>\<newline>## Food & Dining\<newline>\<newline>Cafes\<newline>\<newline>''"
proof -
  let ?gd = "[(''overview'', JStr ''A city.''), (''food_and_dining'', JStr ''Cafes'')]"
  let ?title = "''# Travel Guide: X\<newline>\<newline>''"
  let ?doc = "''# Travel Guide: X\<newline>\<newline>## Overview\<newline>\<newline>A city.\<newline>\<newline>## Food & Dining\<newline>\<newline>Cafes\<newline>\<newline>''"
  have entry: "(''tips'', tips_section) \<in> set guide_sections"
    by (simp add: guide_sections_def)
  have absent: "''tips'' \<notin> set (map fst ?gd)"
    by simp
  have others: "run_sections (filter (\<lambda>entry. fst entry \<noteq> ''tips'') guide_sections) (JObj ?gd)
      (''# Travel Guide: '' @ ''X'' @ ''\<newline>\<newline>'') = Inr ?doc"
    by code_simp
  have free: "\<not> is_substring ''Practical Tips'' ?doc"
    by code_simp
  note inst = absent_key_renders_nothing [OF entry absent, of ?title "''X''"]
  have unchanged: "tips_section (JObj ?gd) ?title = Inr ?title"
    by (rule inst [THEN conjunct1])
  have document: "format_guide (JObj ?gd) ''X'' = Inr ?doc"
    by (rule trans [OF inst [THEN conjunct2] others])
  show ?thesis
    by (intro conjI entry absent unchanged document free)
qed

text \<open>
  Claim C1. For every well-formed JSON value under any of the five guide keys,
  \<^verbatim>\<open>format_guide\<close> returns a document and raises nothing. The code does not do this: the
  attractions branch subscripts every element of a list with \<^verbatim>\<open>'name'\<close> and
  \<^verbatim>\<open>'description'\<close> without looking at what the element is, where the dining branch tests
  \<^verbatim>\<open>isinstance(item, dict)\<close> first and the tips branch prints any element as a bullet. On
  the guide below, whose attractions are a list of strings, the call ends in a
  \<^verbatim>\<open>TypeError\<close>; lemma \<open>format_guide_raises_iff\<close> says that a list of attractions with such
  an element is the only way for the renderer to raise on a mapping.
\<close>

theorem format_guide_raises_on_list_of_strings:
  "format_guide
     (JObj [(''overview'', JStr ''A city.''),
            (''attractions'', JList [JStr ''Eiffel Tower'', JStr ''Louvre'']),
            (''transportation'', JStr ''Metro''),
            (''food_and_dining'', JStr ''Cafes''),
            (''tips'', JStr ''Be safe'')])
     ''Paris''
   = Inl TypeError"
  by code_simp

text \<open>
  Claim C2. With the attractions \<^verbatim>\<open>[{"name":"Tower","description":"Tall"}]\<close> the renderer
  writes the sub-heading "Tower" and then the paragraph "Tall"; with
  \<^verbatim>\<open>[{"mode":"Bus","details":"Cheap"}]\<close>, a mapping without the two keys, it is to fall back
  to the raw text of the mapping as a bullet. The first half holds. On the second list the
  code raises \<^verbatim>\<open>KeyError('name')\<close> instead; the fallback the claim describes is what the
  tips branch does with the same list.
\<close>

theorem attractions_without_name_raise:
  "format_guide
     (JObj [(''attractions'', JList [JObj [(''name'', JStr ''Tower''), (''description'', JStr ''Tall'')]])])
     ''X''
     = Inr ''# Travel Guide: X\<newline>\<newline>## Must-See Attractions\<newline>\<newline>### Tower\<newline>Tall\<newline>\<newline>''
   \<and> format_guide
     (JObj [(''attractions'', JList [JObj [(''mode'', JStr ''Bus''), (''details'', JStr ''Cheap'')]])])
     ''X''
     = Inl (KeyError ''name'')
   \<and> format_guide
     (JObj [(''tips'', JList [JObj [(''mode'', JStr ''Bus''), (''details'', JStr ''Cheap'')]])])
     ''X''
     = Inr (''# Travel Guide: X\<newline>\<newline>## Practical Tips\<newline>\<newline>- {''
            @ [CHR 0x27] @ ''mode'' @ [CHR 0x27] @ '': '' @ [CHR 0x27] @ ''Bus'' @ [CHR 0x27]
            @ '', '' @ [CHR 0x27] @ ''details'' @ [CHR 0x27] @ '': '' @ [CHR 0x27] @ ''Cheap''
            @ [CHR 0x27] @ ''}\<newline>'')"
  by code_simp

section \<open>Properties of the model call\<close>

text \<open>On a dictionary the comprehension yields the required keys that are no keys of it,
  in their order.\<close>

lemma missing_from_obj:
  "missing_from keys (JObj kvs) = Inr (filter (\<lambda>key. key \<notin> set (map fst kvs)) keys)"
  by (induction keys) simp_all

text \<open>
  Claim C7. When the content of the model's completion is no valid JSON, or decodes to an
  object that lacks one of the five required keys, \<^verbatim>\<open>generate_guide\<close> prints a diagnostic
  and returns nothing, and the pipeline halts; nothing is retried. The diagnostic is the
  decoder's message and the content, or the list of the missing keys. Exactly one request
  has gone to the model when \<^verbatim>\<open>generate_guide\<close> returns, and still exactly one when the
  driver has returned early after printing that the guide could not be generated.
\<close>

theorem model_response_failure_halts:
  assumes "get_user_prompt destination content = Inr prompt"
    and "chat requests prompt = Inr text"
    and "loads text = Inl msg
         \<or> (loads text = Inr (JObj kvs) \<and> \<not> set required_keys \<subseteq> set (map fst kvs))"
  shows "let diagnostic =
           (case loads text of
              Inl msg \<Rightarrow>
                [Line (''JSON parsing error: '' @ msg), Line ''Problematic content:'', Line text]
            | Inr result \<Rightarrow>
                [Line (''Missing required keys: ''
                   @ py_repr (JList (map JStr
                        (filter (\<lambda>key. key \<notin> set (map fst kvs)) required_keys))))])
         in generate_guide chat loads requests destination content
              = (diagnostic, None, Suc requests)
          \<and> (scrape_destination_info fetch destination = (printed, Some content)
               \<and> content \<noteq> [] \<longrightarrow>
             create_travel_guide fetch chat loads requests destination
               = (Line (''Scraping information for '' @ destination @ ''...'') # printed
                    @ [Line ''Generating guide...''] @ diagnostic
                    @ [Line ''Failed to generate guide''],
                  Halted, Suc requests))"
proof -
  define diagnostic where "diagnostic =
           (case loads text of
              Inl msg \<Rightarrow>
                [Line (''JSON parsing error: '' @ msg), Line ''Problematic content:'', Line text]
            | Inr result \<Rightarrow>
                [Line (''Missing required keys: ''
                   @ py_repr (JList (map JStr
                        (filter (\<lambda>key. key \<notin> set (map fst kvs)) required_keys))))])"
  have gen: "generate_guide chat loads requests destination content
      = (diagnostic, None, Suc requests)"
    using assms(3)
  proof
    assume "loads text = Inl msg"
    then show ?thesis
      by (simp add: generate_guide_def assms(1,2) diagnostic_def)
  next
    assume bad: "loads text = Inr (JObj kvs) \<and> \<not> set required_keys \<subseteq> set (map fst kvs)"
    then have "filter (\<lambda>key. key \<notin> set (map fst kvs)) required_keys \<noteq> []"
      by (auto simp: filter_empty_conv)
    with bad show ?thesis
      by (simp add: generate_guide_def assms(1,2) diagnostic_def missing_from_obj)
  qed
  have "create_travel_guide fetch chat loads requests destination
               = (Line (''Scraping information for '' @ destination @ ''...'') # printed
                    @ [Line ''Generating guide...''] @ diagnostic
                    @ [Line ''Failed to generate guide''],
                  Halted, Suc requests)"
    if "scrape_destination_info fetch destination = (printed, Some content)" "content \<noteq> []"
    using that gen by (simp add: create_travel_guide_def)
  with gen show ?thesis
    unfolding diagnostic_def Let_def by blast
qed


theorem model_response_failure_halts_witness:
  \<open>get_user_prompt ''X''
       [(''overview'', ''A city.''), (''attractions'', []), (''transportation'', []),
        (''food'', []), (''tips'', [])]
     = Inr (''Create a travel guide for X using this information:\<newline>\<newline>''
            @ ''Overview: A city.\<newline>\<newline>Attractions: \<newline>\<newline>Transportation: \<newline>\<newline>''
            @ ''Food & Dining: \<newline>\<newline>Tips & Understanding: \<newline>\<newline>'' @ prompt_footer)
   \<and> replying ''not json'' 0
       (''Create a travel guide for X using this information:\<newline>\<newline>''
            @ ''Overview: A city.\<newline>\<newline>Attractions: \<newline>\<newline>Transportation: \<newline>\<newline>''
            @ ''Food & Dining: \<newline>\<newline>Tips & Understanding: \<newline>\<newline>'' @ prompt_footer)
     = Inr ''not json''
   \<and> decoding ''{}'' (JObj []) ''not json'' = Inl ''Expecting value: line 1 column 1 (char 0)''
   \<and> scrape_destination_info
       (serving [Tag ''div'' [(''id'', ''mw-content-text'')] [Tag ''p'' [] [Text ''A city.'']]]) ''X''
     = ([], Some [(''overview'', ''A city.''), (''attractions'', []), (''transportation'', []),
                  (''food'', []), (''tips'', [])])
   \<and> generate_guide (replying ''not json'') (decoding ''{}'' (JObj [])) 0 ''X''
       [(''overview'', ''A city.''), (''attractions'', []), (''transportation'', []),
        (''food'', []), (''tips'', [])]
     = ([Line ''JSON parsing error: Expecting value: line 1 column 1 (char 0)'',
         Line ''Problematic content:'', Line ''not json''], None, Suc 0)
   \<and> create_travel_guide
       (serving [Tag ''div'' [(''id'', ''mw-content-text'')] [Tag ''p'' [] [Text ''A city.'']]])
       (replying ''not json'') (decoding ''{}'' (JObj [])) 0 ''X''
     = ([Line ''Scraping information for X...'', Line ''Generating guide...'',
         Line ''JSON parsing error: Expecting value: line 1 column 1 (char 0)'',
         Line ''Problematic content:'', Line ''not json'',
         Line ''Failed to generate guide''], Halted, Suc 0)
   \<and> replying ''{"overview": "A", "attractions": "B", "transportation": "C", "tips": "D"}'' 0
       (''Create a travel guide for X using this information:\<newline>\<newline>''
            @ ''Overview: A city.\<newline>\<newline>Attractions: \<newline>\<newline>Transportation: \<newline>\<newline>''
            @ ''Food & Dining: \<newline>\<newline>Tips & Understanding: \<newline>\<newline>'' @ prompt_footer)
     = Inr ''{"overview": "A", "attractions": "B", "transportation": "C", "tips": "D"}''
   \<and> decoding ''{"overview": "A", "attractions": "B", "transportation": "C", "tips": "D"}''
       (JObj [(''overview'', JStr ''A''), (''attractions'', JStr ''B''),
              (''transportation'', JStr ''C''), (''tips'', JStr ''D'')])
       ''{"overview": "A", "attractions": "B", "transportation": "C", "tips": "D"}''
     = Inr (JObj [(''overview'', JStr ''A''), (''attractions'', JStr ''B''),
                  (''transportation'', JStr ''C''), (''tips'', JStr ''D'')])
   \<and> \<not> set required_keys \<subseteq> set (map fst
       [(''overview'', JStr ''A''), (''attractions'', JStr ''B''),
        (''transportation'', JStr ''C''), (''tips'', JStr ''D'')])
   \<and> generate_guide
       (replying ''{"overview": "A", "attractions": "B", "transportation": "C", "tips": "D"}'')
       (decoding ''{"overview": "A", "attractions": "B", "transportation": "C", "tips": "D"}''
          (JObj [(''overview'', JStr ''A''), (''attractions'', JStr ''B''),
                 (''transportation'', JStr ''C''), (''tips'', JStr ''D'')]))
       0 ''X''
       [(''overview'', ''A city.''), (''attractions'', []), (''transportation'', []),
        (''food'', []), (''tips'', [])]
     = ([Line (''Missing required keys: ['' @ [CHR 0x27] @ ''food_and_dining'' @ [CHR 0x27] @ '']'')],
        None, Suc 0)\<close>
proof -
  let ?info = "[(''overview'', ''A city.''), (''attractions'', []), (''transportation'', []),
        (''food'', []), (''tips'', [])]"
  let ?prompt = "''Create a travel guide for X using this information:\<newline>\<newline>''
            @ ''Overview: A city.\<newline>\<newline>Attractions: \<newline>\<newline>Transportation: \<newline>\<newline>''
            @ ''Food & Dining: \<newline>\<newline>Tips & Understanding: \<newline>\<newline>'' @ prompt_footer"
  let ?page = "[Tag ''div'' [(''id'', ''mw-content-text'')] [Tag ''p'' [] [Text ''A city.'']]]"
  let ?msg = "''Expecting value: line 1 column 1 (char 0)''"
  let ?reply = \<open>''{"overview": "A", "attractions": "B", "transportation": "C", "tips": "D"}''\<close>
  let ?kvs = "[(''overview'', JStr ''A''), (''attractions'', JStr ''B''),
        (''transportation'', JStr ''C''), (''tips'', JStr ''D'')]"
  have prompt: "get_user_prompt ''X'' ?info = Inr ?prompt"
    by (simp add: get_user_prompt_def info_get_def)
  have reply1: "replying ''not json'' 0 ?prompt = Inr ''not json''"
    by (simp only: replying_def)
  have decode1: "decoding ''{}'' (JObj []) ''not json'' = Inl ?msg"
    by (simp add: decoding_def)
  have scraped: "scrape_destination_info (serving ?page) ''X'' = ([], Some ?info)"
    by code_simp
  have nonempty: "?info \<noteq> []"
    by simp
  have reply2: "replying ?reply 0 ?prompt = Inr ?reply"
    by (simp only: replying_def)
  have decode2: "decoding ?reply (JObj ?kvs) ?reply = Inr (JObj ?kvs)"
    by (simp only: decoding_def simp_thms if_True)
  have lacking: "\<not> set required_keys \<subseteq> set (map fst ?kvs)"
    by (simp add: required_keys_def)
  have missing: "filter (\<lambda>key. key \<notin> set (map fst ?kvs)) required_keys = [''food_and_dining'']"
    by (simp add: required_keys_def)
  have text2: "py_repr (JList (map JStr [''food_and_dining'']))
      = ''['' @ [CHR 0x27] @ ''food_and_dining'' @ [CHR 0x27] @ '']''"
    by code_simp
  note first = model_response_failure_halts
      [where chat = "replying ''not json''" and loads = "decoding ''{}'' (JObj [])"
         and fetch = "serving ?page" and printed = "[]" and kvs = "[]",
       OF prompt reply1 disjI1 [OF decode1]]
  note second = model_response_failure_halts
      [where chat = "replying ?reply" and loads = "decoding ?reply (JObj ?kvs)"
         and fetch = "serving ?page" and printed = "[]" and msg = "[]",
       OF prompt reply2 disjI2 [OF conjI [OF decode2 lacking]]]
  have generated1: "generate_guide (replying ''not json'') (decoding ''{}'' (JObj [])) 0 ''X'' ?info
      = ([Line ''JSON parsing error: Expecting value: line 1 column 1 (char 0)'',
         Line ''Problematic content:'', Line ''not json''], None, Suc 0)"
    using first unfolding Let_def decode1 by simp
  have halted: "create_travel_guide (serving ?page) (replying ''not json'')
        (decoding ''{}'' (JObj [])) 0 ''X''
      = ([Line ''Scraping information for X...'', Line ''Generating guide...'',
         Line ''JSON parsing error: Expecting value: line 1 column 1 (char 0)'',
         Line ''Problematic content:'', Line ''not json'',
         Line ''Failed to generate guide''], Halted, Suc 0)"
    using first scraped unfolding Let_def decode1 by simp
  have generated2: "generate_guide (replying ?reply) (decoding ?reply (JObj ?kvs)) 0 ''X'' ?info
      = ([Line (''Missing required keys: ['' @ [CHR 0x27] @ ''food_and_dining'' @ [CHR 0x27] @ '']'')],
        None, Suc 0)"
    using second unfolding Let_def decode2 missing text2 by simp
  show ?thesis
    by (intro conjI prompt reply1 decode1 scraped generated1 halted reply2 decode2 lacking
        generated2)
qed

end
